theory Spec2Isabelle
  imports Complex_Main "HOL-Library.AList"
begin

section \<open>Admission controller: \<open>RateLimiter\<close> of app/utils/helpers.py\<close>

text \<open>
  The limiter keeps, per identifier, the list of the instants at which a request was
  admitted. The source reads the clock with \<open>time.time()\<close>; the model takes the
  instant as the argument \<open>current_time\<close>. Instants are real numbers (the rounding of
  Python floats is not modelled); \<open>max_requests\<close> and \<open>window_seconds\<close> are Python
  integers.
\<close>

record RateLimiter =
  max_requests :: int
  window_seconds :: int
  requests :: "string \<rightharpoonup> real list"

definition request_history :: "RateLimiter \<Rightarrow> string \<Rightarrow> real list" where
  \<comment> \<open>\<open>self.requests[identifier]\<close> after the \<open>if identifier not in self.requests\<close>
      initialisation: an absent identifier reads as the empty list.\<close>
  "request_history rl identifier =
     (case requests rl identifier of None \<Rightarrow> [] | Some h \<Rightarrow> h)"

definition is_allowed :: "real \<Rightarrow> string \<Rightarrow> RateLimiter \<Rightarrow> bool \<times> RateLimiter" where
  "is_allowed current_time identifier rl =
     (let cutoff_time = current_time - real_of_int (window_seconds rl);
          kept = filter (\<lambda>req_time. req_time > cutoff_time) (request_history rl identifier)
      in if int (length kept) < max_requests rl
         then (True, rl\<lparr>requests := (requests rl)(identifier \<mapsto> kept @ [current_time])\<rparr>)
         else (False, rl\<lparr>requests := (requests rl)(identifier \<mapsto> kept)\<rparr>))"

fun is_allowed_times :: "nat \<Rightarrow> real \<Rightarrow> string \<Rightarrow> RateLimiter \<Rightarrow> bool list \<times> RateLimiter" where
  \<comment> \<open>\<open>n\<close> successive calls of \<open>is_allowed\<close> at one instant, with the answers in order.\<close>
  "is_allowed_times 0 t identifier rl = ([], rl)"
| "is_allowed_times (Suc n) t identifier rl =
     (case is_allowed t identifier rl of
        (b, rl1) \<Rightarrow> (case is_allowed_times n t identifier rl1 of
                       (bs, rl2) \<Rightarrow> (b # bs, rl2)))"


section \<open>Messages: app/models/schemas.py\<close>

text \<open>
  A value produced by \<open>json.loads\<close>: Python's \<open>None\<close>, \<open>bool\<close>, numbers, \<open>str\<close>,
  \<open>list\<close> and \<open>dict\<close> (an association list; the keys of a JSON object are strings).

  Each payload model of schemas.py is the predicate saying that an object has the declared
  fields within the declared constraints, read on values of the declared JSON type; the
  conversions pydantic applies to values of another type (a numeric string for a number)
  are not modelled, and the length of a string is its length as a list of characters.
  None of this decides a result below: the last member of the payload union,
  \<open>Dict[str, Any]\<close>, accepts every object, and no member accepts anything else.
\<close>

datatype json =
    JNull
  | JBool bool
  | JNum real
  | JStr string
  | JArr "json list"
  | JObj "(string \<times> json) list"

fun is_dict :: "json \<Rightarrow> bool" where
  "is_dict (JObj kvs) = True"
| "is_dict _ = False"

fun dict_get :: "json \<Rightarrow> string \<Rightarrow> json option" where
  "dict_get (JObj kvs) k = map_of kvs k"
| "dict_get _ k = None"

datatype MessageType = DRAW | TEXT | CLEAR | CURSOR | USER_COUNT | BOARD_STATE | ERROR

fun message_type_value :: "MessageType \<Rightarrow> string" where
  "message_type_value DRAW = ''draw''"
| "message_type_value TEXT = ''text''"
| "message_type_value CLEAR = ''clear''"
| "message_type_value CURSOR = ''cursor''"
| "message_type_value USER_COUNT = ''user_count''"
| "message_type_value BOARD_STATE = ''board_state''"
| "message_type_value ERROR = ''error''"

definition message_type_of :: "json \<Rightarrow> MessageType option" where
  \<comment> \<open>The field \<open>type: MessageType\<close>: a string that is the value of a member.\<close>
  "message_type_of v =
     (case v of
        JStr s \<Rightarrow> find (\<lambda>t. message_type_value t = s)
                    [DRAW, TEXT, CLEAR, CURSOR, USER_COUNT, BOARD_STATE, ERROR]
      | _ \<Rightarrow> None)"

definition is_number :: "json option \<Rightarrow> bool" where
  "is_number v = (case v of Some (JNum r) \<Rightarrow> True | _ \<Rightarrow> False)"

definition is_hex_color :: "json option \<Rightarrow> bool" where
  \<comment> \<open>\<open>pattern=r"^#[0-9A-Fa-f]{6}$"\<close>\<close>
  "is_hex_color v =
     (case v of
        Some (JStr (c # cs)) \<Rightarrow> c = CHR ''#'' \<and> length cs = 6 \<and>
           list_all (\<lambda>h. h \<in> set ''0123456789ABCDEFabcdef'') cs
      | _ \<Rightarrow> False)"

definition validate_coordinates :: "real \<Rightarrow> string + real" where
  "validate_coordinates v =
     (if \<not> (- 10000 \<le> v \<and> v \<le> 10000)
      then Inl ''Coordinate value out of reasonable range'' else Inr v)"

definition Point_ok :: "json \<Rightarrow> bool" where
  "Point_ok p =
     (case (dict_get p ''x'', dict_get p ''y'') of
        (Some (JNum x), Some (JNum y)) \<Rightarrow>
           \<not> isl (validate_coordinates x) \<and> \<not> isl (validate_coordinates y)
      | _ \<Rightarrow> False)"

definition validate_points_limit :: "nat \<Rightarrow> 'a list \<Rightarrow> string + 'a list" where
  \<comment> \<open>\<open>DrawPayload.validate_points_limit\<close>; the first argument is
      \<open>settings.max_stroke_points\<close>.\<close>
  "validate_points_limit max_stroke_points v =
     (if length v > max_stroke_points then Inl ''Too many points in stroke'' else Inr v)"

definition DrawPayload_ok :: "nat \<Rightarrow> json \<Rightarrow> bool" where
  "DrawPayload_ok max_stroke_points p =
     (dict_get p ''tool'' \<in> {Some (JStr ''pen''), Some (JStr ''eraser'')} \<and>
      is_hex_color (dict_get p ''color'') \<and>
      (case dict_get p ''size'' of
         Some (JNum n) \<Rightarrow> real_of_int \<lfloor>n\<rfloor> = n \<and> 1 \<le> n \<and> n \<le> 100
       | _ \<Rightarrow> False) \<and>
      (case dict_get p ''points'' of
         Some (JArr ps) \<Rightarrow> 1 \<le> length ps \<and> list_all Point_ok ps \<and>
                            \<not> isl (validate_points_limit max_stroke_points ps)
       | _ \<Rightarrow> False))"

definition TextPayload_ok :: "json \<Rightarrow> bool" where
  "TextPayload_ok p =
     ((case dict_get p ''content'' of Some (JStr s) \<Rightarrow> length s \<le> 1000 | _ \<Rightarrow> False) \<and>
      is_number (dict_get p ''x'') \<and> is_number (dict_get p ''y'') \<and>
      (case dict_get p ''font'' of None \<Rightarrow> True | Some (JStr f) \<Rightarrow> True | _ \<Rightarrow> False) \<and>
      is_hex_color (dict_get p ''color''))"

definition CursorPayload_ok :: "json \<Rightarrow> bool" where
  "CursorPayload_ok p = (is_number (dict_get p ''x'') \<and> is_number (dict_get p ''y''))"

definition UserCountPayload_ok :: "json \<Rightarrow> bool" where
  "UserCountPayload_ok p =
     (case dict_get p ''count'' of
        Some (JNum n) \<Rightarrow> real_of_int \<lfloor>n\<rfloor> = n \<and> 0 \<le> n
      | _ \<Rightarrow> False)"

definition BoardStatePayload_ok :: "json \<Rightarrow> bool" where
  "BoardStatePayload_ok p =
     (is_dict p \<and>
      (case dict_get p ''actions'' of
         None \<Rightarrow> True
       | Some (JArr acts) \<Rightarrow> list_all is_dict acts
       | _ \<Rightarrow> False))"

definition ErrorPayload_ok :: "json \<Rightarrow> bool" where
  "ErrorPayload_ok p =
     ((case dict_get p ''message'' of Some (JStr s) \<Rightarrow> True | _ \<Rightarrow> False) \<and>
      (case dict_get p ''code'' of
         None \<Rightarrow> True | Some JNull \<Rightarrow> True | Some (JStr s) \<Rightarrow> True | _ \<Rightarrow> False))"

definition payload_union_ok :: "nat \<Rightarrow> json \<Rightarrow> bool" where
  \<comment> \<open>The field \<open>payload: Optional[Union[DrawPayload, TextPayload, CursorPayload,
      UserCountPayload, BoardStatePayload, ErrorPayload, Dict[str, Any]]]\<close>: a value is
      accepted when one member of the union accepts it.\<close>
  "payload_union_ok max_stroke_points p =
     (DrawPayload_ok max_stroke_points p \<or> TextPayload_ok p \<or> CursorPayload_ok p \<or>
      UserCountPayload_ok p \<or> BoardStatePayload_ok p \<or> ErrorPayload_ok p \<or> is_dict p)"

record WebSocketMessage =
  mtype :: MessageType
  client_id :: string
  payload :: json

datatype error = ValidationException string | WebSocketException string

definition WebSocketMessage_validate :: "nat \<Rightarrow> json \<Rightarrow> string + WebSocketMessage" where
  \<comment> \<open>\<open>WebSocketMessage(**message_data)\<close>. \<open>client_id\<close> is read through its alias
      \<open>clientId\<close>, or by its name (\<open>populate_by_name\<close>). An absent payload is \<open>None\<close>.
      The payload of the result is kept as the received value.\<close>
  "WebSocketMessage_validate max_stroke_points d =
     (case (case dict_get d ''type'' of None \<Rightarrow> None | Some v \<Rightarrow> message_type_of v) of
        None \<Rightarrow> Inl ''type''
      | Some t \<Rightarrow>
         (case (case dict_get d ''clientId'' of None \<Rightarrow> dict_get d ''client_id'' | Some c \<Rightarrow> Some c) of
            Some (JStr c) \<Rightarrow>
              (case dict_get d ''payload'' of
                 None \<Rightarrow> Inr \<lparr>mtype = t, client_id = c, payload = JNull\<rparr>
               | Some JNull \<Rightarrow> Inr \<lparr>mtype = t, client_id = c, payload = JNull\<rparr>
               | Some p \<Rightarrow>
                   if payload_union_ok max_stroke_points p
                   then Inr \<lparr>mtype = t, client_id = c, payload = p\<rparr>
                   else Inl ''payload'')
          | _ \<Rightarrow> Inl ''clientId''))"


section \<open>Session registry, broadcast and board log: app/services/connection_manager.py\<close>

text \<open>
  A WebSocket handle is opaque. The transport is part of the state: \<open>wire\<close> lists, in
  order, every frame that \<open>send_text\<close> delivered; \<open>accept_fails\<close> holds the handles whose
  \<open>accept()\<close> raises and \<open>send_fails\<close> those whose \<open>send_text\<close> raises. A delivery
  records the registry key the send was made for (\<open>None\<close> where the code sends on a bare
  handle), the handle and the message. The dictionary \<open>_active_connections\<close> is an
  association list in insertion order, the order in which \<open>broadcast\<close> iterates.
  \<open>time.time()\<close> is the argument \<open>now\<close>: one reading of the clock for the whole
  operation. Whether a socket fails is fixed for the duration of one operation, and
  operations run one at a time: the interleaving of coroutines at an \<open>await\<close> is not
  modelled.
\<close>

type_synonym websocket = nat

record ConnectionInfo =
  info_client_id :: string
  connected_at :: real
  last_activity :: real
  ip_address :: "string option"

record delivery =
  dest :: "string option"
  sock :: websocket
  frame :: WebSocketMessage

record ConnectionManager =
  active_connections :: "(string \<times> websocket) list"
  connection_info :: "string \<rightharpoonup> ConnectionInfo"
  board :: "json list"
  client_activity :: "string \<rightharpoonup> real"
  wire :: "delivery list"
  accept_fails :: "websocket set"
  send_fails :: "websocket set"

definition active_connections_count :: "ConnectionManager \<Rightarrow> nat" where
  "active_connections_count s = length (active_connections s)"

definition board_state :: "ConnectionManager \<Rightarrow> json list" where
  \<comment> \<open>The property \<open>board_state\<close>: a copy of the log.\<close>
  "board_state s = board s"

definition add_to_board_state :: "json \<Rightarrow> ConnectionManager \<Rightarrow> ConnectionManager" where
  "add_to_board_state action s =
     (let action_type = dict_get action ''type''
      in if action_type = Some (JStr (message_type_value CLEAR))
         then s\<lparr>board := []\<rparr>
         else if action_type \<in> set [Some (JStr (message_type_value DRAW)),
                                      Some (JStr (message_type_value TEXT))]
         then s\<lparr>board := board s @ [action]\<rparr>
         else s)"

definition user_count_message :: "nat \<Rightarrow> WebSocketMessage" where
  "user_count_message n =
     \<lparr>mtype = USER_COUNT, client_id = ''server'',
      payload = JObj [(''count'', JNum (real n))]\<rparr>"

definition board_state_message :: "json list \<Rightarrow> WebSocketMessage" where
  "board_state_message actions =
     \<lparr>mtype = BOARD_STATE, client_id = ''server'',
      payload = JObj [(''actions'', JArr actions)]\<rparr>"

definition send_text ::
  "string option \<Rightarrow> websocket \<Rightarrow> WebSocketMessage \<Rightarrow> ConnectionManager \<Rightarrow> ConnectionManager option" where
  \<comment> \<open>\<open>await websocket.send_text(...)\<close>: \<open>None\<close> when the call raises.\<close>
  "send_text d websocket m s =
     (if websocket \<in> send_fails s then None
      else Some (s\<lparr>wire := wire s @ [\<lparr>dest = d, sock = websocket, frame = m\<rparr>]\<rparr>))"

definition send_board_state :: "websocket \<Rightarrow> ConnectionManager \<Rightarrow> ConnectionManager option" where
  "send_board_state websocket s = send_text None websocket (board_state_message (board s)) s"

definition update_client_activity :: "real \<Rightarrow> string \<Rightarrow> ConnectionManager \<Rightarrow> ConnectionManager" where
  "update_client_activity now cid s =
     (let s1 = s\<lparr>client_activity := (client_activity s)(cid \<mapsto> now)\<rparr>
      in case connection_info s1 cid of
           None \<Rightarrow> s1
         | Some i \<Rightarrow> s1\<lparr>connection_info := (connection_info s1)(cid \<mapsto> i\<lparr>last_activity := now\<rparr>)\<rparr>)"

definition excluded :: "string option \<Rightarrow> string \<Rightarrow> bool" where
  \<comment> \<open>\<open>exclude_client and client_id == exclude_client\<close>: \<open>None\<close> and the empty string
      are both false in Python.\<close>
  "excluded exclude_client cid =
     (case exclude_client of
        None \<Rightarrow> False
      | Some e \<Rightarrow> e \<noteq> [] \<and> cid = e)"

fun broadcast_loop ::
  "real \<Rightarrow> WebSocketMessage \<Rightarrow> string option \<Rightarrow> (string \<times> websocket) list \<Rightarrow>
   nat \<times> string list \<times> ConnectionManager \<Rightarrow> nat \<times> string list \<times> ConnectionManager" where
  \<comment> \<open>The loop \<open>for client_id, websocket in self._active_connections.items()\<close> of
      \<open>broadcast\<close>, on \<open>(successful_sends, failed_clients, self)\<close>.\<close>
  "broadcast_loop now m exclude_client [] acc = acc"
| "broadcast_loop now m exclude_client ((cid, websocket) # rest) (successful_sends, failed_clients, s) =
     (if excluded exclude_client cid
      then broadcast_loop now m exclude_client rest (successful_sends, failed_clients, s)
      else (case send_text (Some cid) websocket m s of
              Some s1 \<Rightarrow>
                broadcast_loop now m exclude_client rest
                  (Suc successful_sends, failed_clients, update_client_activity now cid s1)
            | None \<Rightarrow>
                broadcast_loop now m exclude_client rest
                  (successful_sends, failed_clients @ [cid], s)))"

definition remove_client :: "string \<Rightarrow> ConnectionManager \<Rightarrow> ConnectionManager" where
  \<comment> \<open>The three guarded \<open>del\<close> statements at the start of \<open>disconnect\<close>.\<close>
  "remove_client cid s =
     s\<lparr>active_connections := AList.delete cid (active_connections s),
       connection_info := (connection_info s)(cid := None),
       client_activity := (client_activity s)(cid := None)\<rparr>"

text \<open>
  \<open>broadcast\<close> hands every failed client to \<open>_handle_connection_error\<close>, which calls
  \<open>disconnect\<close>, which calls \<open>broadcast_user_count\<close>, which calls \<open>broadcast\<close> again.
  The first argument bounds the depth of these nested broadcasts; \<open>None\<close> means that the
  bound was reached.
\<close>

function broadcast ::
    "nat \<Rightarrow> real \<Rightarrow> WebSocketMessage \<Rightarrow> string option \<Rightarrow> ConnectionManager \<Rightarrow>
     (nat \<times> ConnectionManager) option"
  and handle_connection_errors ::
    "nat \<Rightarrow> real \<Rightarrow> string list \<Rightarrow> ConnectionManager \<Rightarrow> ConnectionManager option"
  and disconnect ::
    "nat \<Rightarrow> real \<Rightarrow> string \<Rightarrow> ConnectionManager \<Rightarrow> ConnectionManager option"
  and broadcast_user_count ::
    "nat \<Rightarrow> real \<Rightarrow> ConnectionManager \<Rightarrow> ConnectionManager option"
where
  "broadcast 0 now m exclude_client s = None"
| "broadcast (Suc k) now m exclude_client s =
     (if active_connections s = [] then Some (0, s)
      else (case broadcast_loop now m exclude_client (active_connections s) (0, [], s) of
              (successful_sends, failed_clients, s1) \<Rightarrow>
                (case handle_connection_errors k now failed_clients s1 of
                   None \<Rightarrow> None
                 | Some s2 \<Rightarrow> Some (successful_sends, s2))))"
| "handle_connection_errors k now [] s = Some s"
| "handle_connection_errors k now (cid # rest) s =
     (case disconnect k now cid s of
        None \<Rightarrow> None
      | Some s1 \<Rightarrow> handle_connection_errors k now rest s1)"
| "disconnect k now cid s = broadcast_user_count k now (remove_client cid s)"
| "broadcast_user_count k now s =
     (case broadcast k now (user_count_message (active_connections_count s)) None s of
        None \<Rightarrow> None
      | Some (n, s1) \<Rightarrow> Some s1)"
  by pat_completeness auto
termination
  by (relation "measures
       [\<lambda>x. case x of
          Inl (Inl (k, now, m, e, s)) \<Rightarrow> k
        | Inl (Inr (k, now, cs, s)) \<Rightarrow> k
        | Inr (Inl (k, now, c, s)) \<Rightarrow> k
        | Inr (Inr (k, now, s)) \<Rightarrow> k,
        \<lambda>x. case x of
          Inl (Inl (k, now, m, e, s)) \<Rightarrow> 0
        | Inl (Inr (k, now, cs, s)) \<Rightarrow> 3 + length cs
        | Inr (Inl (k, now, c, s)) \<Rightarrow> 2
        | Inr (Inr (k, now, s)) \<Rightarrow> 1]") auto

definition connect ::
  "nat \<Rightarrow> real \<Rightarrow> websocket \<Rightarrow> string \<Rightarrow> string option \<Rightarrow> ConnectionManager \<Rightarrow>
   (error option \<times> ConnectionManager) option" where
  \<comment> \<open>The first component is the exception raised, if any (the source appends the
      text of the caught exception to \<open>Connection failed\<close>); the state is the manager
      as the call leaves it.\<close>
  "connect k now websocket cid ip s =
     (if websocket \<in> accept_fails s
      then Some (Some (WebSocketException ''Connection failed''), s)
      else
        let s1 = s\<lparr>active_connections := AList.update cid websocket (active_connections s),
                   connection_info := (connection_info s)(cid \<mapsto>
                      \<lparr>info_client_id = cid, connected_at = now, last_activity = now,
                       ip_address = ip\<rparr>),
                   client_activity := (client_activity s)(cid \<mapsto> now)\<rparr>
        in case (if board s1 \<noteq> [] then send_board_state websocket s1 else Some s1) of
             None \<Rightarrow> Some (Some (WebSocketException ''Connection failed''), s1)
           | Some s2 \<Rightarrow>
               (case broadcast_user_count k now s2 of
                  None \<Rightarrow> None
                | Some s3 \<Rightarrow> Some (None, s3)))"

section \<open>Inbound frames: app/api/websocket.py\<close>

definition safe_json_loads :: "(string \<Rightarrow> json option) \<Rightarrow> string \<Rightarrow> json" where
  \<comment> \<open>\<open>json.loads\<close> is the argument \<open>loads\<close> (\<open>None\<close> where it raises
      \<open>JSONDecodeError\<close>); the default returned on failure is Python's \<open>None\<close>.\<close>
  "safe_json_loads loads json_str = (case loads json_str of None \<Rightarrow> JNull | Some v \<Rightarrow> v)"

definition process_incoming_message ::
  "(string \<Rightarrow> json option) \<Rightarrow> nat \<Rightarrow> string \<Rightarrow> string \<Rightarrow> ConnectionManager \<Rightarrow>
   (error + WebSocketMessage) \<times> ConnectionManager" where
  \<comment> \<open>\<open>max_stroke_points\<close> is \<open>settings.max_stroke_points\<close>. The source appends
      pydantic's error text to \<open>Message validation failed\<close>.\<close>
  "process_incoming_message loads max_stroke_points raw_data cid manager =
     (let message_data = safe_json_loads loads raw_data
      in if message_data = JNull
         then (Inl (ValidationException ''Invalid JSON format''), manager)
         else if \<not> is_dict message_data
         then (Inl (ValidationException ''Message must be a JSON object''), manager)
         else if dict_get message_data ''type'' = None
         then (Inl (ValidationException ''Message type is required''), manager)
         else if dict_get message_data ''clientId'' = None
         then (Inl (ValidationException ''Client ID is required''), manager)
         else if dict_get message_data ''clientId'' \<noteq> Some (JStr cid)
         then (Inl (ValidationException ''Client ID mismatch''), manager)
         else (case WebSocketMessage_validate max_stroke_points message_data of
                 Inl e \<Rightarrow> (Inl (ValidationException ''Message validation failed''), manager)
               | Inr message \<Rightarrow>
                   if mtype message \<in> set [DRAW, TEXT]
                   then (Inr message, add_to_board_state message_data manager)
                   else if mtype message = CLEAR
                   then (Inr message, add_to_board_state message_data manager)
                   else (Inr message, manager)))"

section \<open>Notions used to state the results\<close>

text \<open>
  For one call of \<open>broadcast\<close> on a state: \<open>recipients\<close> are the registered sessions that are
  not excluded and whose socket accepts a send, \<open>failures\<close> the ids of those that are not
  excluded and whose send raises; \<open>delivered\<close> is one successful iteration of the loop.
  \<open>registry\<close> is the three tables of the session registry; an id is \<open>unregistered\<close> when
  it is in none of them. A \<open>user_count_frame\<close> is a delivery of a \<open>user_count\<close> message of
  the server, and \<open>user_count_deliveries\<close> is the fan-out of the current count to every
  registered session. A registry is \<open>settled\<close> at an instant when every registered socket
  accepts a send and every session was last active at that instant; a session is \<open>kept\<close>
  when it is registered on a given socket with given metadata, last active at the given
  instant, and no socket under its id fails.
\<close>

definition recipients :: "string option \<Rightarrow> ConnectionManager \<Rightarrow> (string \<times> websocket) list" where
  "recipients exclude_client s =
     filter (\<lambda>(cid, w). \<not> excluded exclude_client cid \<and> w \<notin> send_fails s) (active_connections s)"

definition failures :: "string option \<Rightarrow> ConnectionManager \<Rightarrow> string list" where
  "failures exclude_client s =
     map fst (filter (\<lambda>(cid, w). \<not> excluded exclude_client cid \<and> w \<in> send_fails s) (active_connections s))"

definition delivered :: "real \<Rightarrow> WebSocketMessage \<Rightarrow> string \<times> websocket \<Rightarrow> ConnectionManager \<Rightarrow> ConnectionManager" where
  "delivered now m p s =
     update_client_activity now (fst p)
       (s\<lparr>wire := wire s @ [\<lparr>dest = Some (fst p), sock = snd p, frame = m\<rparr>]\<rparr>)"

definition registry ::
  "ConnectionManager \<Rightarrow> (string \<times> websocket) list \<times> (string \<rightharpoonup> ConnectionInfo) \<times> (string \<rightharpoonup> real)" where
  "registry s = (active_connections s, connection_info s, client_activity s)"

definition user_count_frame :: "delivery \<Rightarrow> bool" where
  "user_count_frame d = (mtype (frame d) = USER_COUNT \<and> client_id (frame d) = ''server'')"

definition unregistered :: "string \<Rightarrow> ConnectionManager \<Rightarrow> bool" where
  "unregistered cid s =
     (cid \<notin> fst ` set (active_connections s) \<and> connection_info s cid = None \<and>
      client_activity s cid = None)"

definition user_count_deliveries :: "ConnectionManager \<Rightarrow> delivery list" where
  "user_count_deliveries s =
     map (\<lambda>p. \<lparr>dest = Some (fst p), sock = snd p,
                frame = user_count_message (active_connections_count s)\<rparr>)
       (active_connections s)"

definition settled :: "real \<Rightarrow> ConnectionManager \<Rightarrow> bool" where
  "settled now s =
     list_all (\<lambda>p. snd p \<notin> send_fails s \<and> client_activity s (fst p) = Some now \<and>
                    (case connection_info s (fst p) of
                       None \<Rightarrow> True
                     | Some i \<Rightarrow> last_activity i = now))
       (active_connections s)"

definition kept :: "real \<Rightarrow> string \<Rightarrow> websocket \<Rightarrow> ConnectionInfo \<Rightarrow> ConnectionManager \<Rightarrow> bool" where
  "kept now c w i s =
     ((c, w) \<in> set (active_connections s) \<and> connection_info s c = Some i \<and>
      last_activity i = now \<and> client_activity s c = Some now \<and>
      list_all (\<lambda>p. fst p = c \<longrightarrow> snd p \<notin> send_fails s) (active_connections s))"

section \<open>The admission controller and the board log\<close>

lemma is_allowed_admit:
  assumes "filter (\<lambda>r. r > t - real_of_int (window_seconds rl)) (request_history rl ident) = xs"
    and "int (length xs) < max_requests rl"
  shows "is_allowed t ident rl = (True, rl\<lparr>requests := (requests rl)(ident \<mapsto> xs @ [t])\<rparr>)"
  using assms by (simp add: is_allowed_def Let_def)

lemma is_allowed_reject:
  assumes "filter (\<lambda>r. r > t - real_of_int (window_seconds rl)) (request_history rl ident) = xs"
    and "\<not> int (length xs) < max_requests rl"
  shows "is_allowed t ident rl = (False, rl\<lparr>requests := (requests rl)(ident \<mapsto> xs)\<rparr>)"
  using assms by (simp add: is_allowed_def Let_def)

lemma is_allowed_times_admits:
  assumes "0 < window_seconds rl"
    and "filter (\<lambda>r. r > t - real_of_int (window_seconds rl)) (request_history rl ident) = replicate j t"
    and "int (j + n) \<le> max_requests rl"
  shows "fst (is_allowed_times n t ident rl) = replicate n True \<and>
         (0 < n \<longrightarrow> request_history (snd (is_allowed_times n t ident rl)) ident = replicate (j + n) t) \<and>
         filter (\<lambda>r. r > t - real_of_int (window_seconds rl))
            (request_history (snd (is_allowed_times n t ident rl)) ident) = replicate (j + n) t \<and>
         max_requests (snd (is_allowed_times n t ident rl)) = max_requests rl \<and>
         window_seconds (snd (is_allowed_times n t ident rl)) = window_seconds rl"
  using assms
proof (induction n arbitrary: rl j)
  case 0
  then show ?case by simp
next
  case (Suc n)
  let ?rl1 = "rl\<lparr>requests := (requests rl)(ident \<mapsto> replicate j t @ [t])\<rparr>"
  have step: "is_allowed t ident rl = (True, ?rl1)"
    using Suc.prems by (intro is_allowed_admit) auto
  have h: "request_history ?rl1 ident = replicate (Suc j) t"
    by (simp add: request_history_def replicate_append_same)
  have f: "filter (\<lambda>r. r > t - real_of_int (window_seconds ?rl1)) (request_history ?rl1 ident) = replicate (Suc j) t"
    using Suc.prems(1) unfolding h by simp
  have "0 < window_seconds ?rl1" "int (Suc j + n) \<le> max_requests ?rl1"
    using Suc.prems by simp_all
  from Suc.IH[OF this(1) f this(2)]
  have ih: "fst (is_allowed_times n t ident ?rl1) = replicate n True"
    "0 < n \<longrightarrow> request_history (snd (is_allowed_times n t ident ?rl1)) ident = replicate (Suc j + n) t"
    "filter (\<lambda>r. r > t - real_of_int (window_seconds rl))
       (request_history (snd (is_allowed_times n t ident ?rl1)) ident) = replicate (Suc j + n) t"
    "max_requests (snd (is_allowed_times n t ident ?rl1)) = max_requests rl"
    "window_seconds (snd (is_allowed_times n t ident ?rl1)) = window_seconds rl"
    by simp_all
  have hist: "request_history (snd (is_allowed_times n t ident ?rl1)) ident = replicate (Suc j + n) t"
  proof (cases n)
    case 0
    then show ?thesis using h by simp
  next
    case (Suc m)
    then show ?thesis using ih(2) by simp
  qed
  obtain bs rl2 where eq: "is_allowed_times n t ident ?rl1 = (bs, rl2)"
    by (cases "is_allowed_times n t ident ?rl1")
  show ?case
    using ih(1,3,4,5) hist unfolding eq
    by (simp add: step eq)
qed


text \<open>
  Claim C5. For a limiter with a positive limit and a positive window, and an identifier
  with no request inside the window, at one fixed instant \<open>t\<close>: the first
  \<open>max_requests\<close> calls of \<open>is_allowed\<close> all return true and the next call returns
  false; a call that returns false (for any limiter, identifier and instant) leaves the
  ledger of the identifier as its entries inside the window and appends nothing; and once
  \<open>window_seconds\<close> have passed since \<open>t\<close> the blocked identifier is allowed again.
\<close>

theorem C5_sliding_window:
  assumes "0 < window_seconds rl" and "0 < max_requests rl"
    and "\<forall>r \<in> set (request_history rl ident). r \<le> t - real_of_int (window_seconds rl)"
  shows "fst (is_allowed_times (nat (max_requests rl)) t ident rl) = replicate (nat (max_requests rl)) True
       \<and> fst (is_allowed t ident (snd (is_allowed_times (nat (max_requests rl)) t ident rl))) = False
       \<and> (\<not> fst (is_allowed t2 ident2 rl2) \<longrightarrow>
            snd (is_allowed t2 ident2 rl2) =
              rl2\<lparr>requests := (requests rl2)(ident2 \<mapsto>
                 filter (\<lambda>r. r > t2 - real_of_int (window_seconds rl2)) (request_history rl2 ident2))\<rparr>)
       \<and> (t + real_of_int (window_seconds rl) \<le> t3 \<longrightarrow>
            fst (is_allowed t3 ident
                  (snd (is_allowed t ident (snd (is_allowed_times (nat (max_requests rl)) t ident rl))))) = True)"
proof -
  let ?w = "real_of_int (window_seconds rl)"
  let ?n = "nat (max_requests rl)"
  let ?rlA = "snd (is_allowed_times ?n t ident rl)"
  have stale: "filter (\<lambda>r. r > t - ?w) (request_history rl ident) = replicate 0 t"
    using assms(3) by (auto simp: filter_empty_conv)
  have "int (0 + ?n) \<le> max_requests rl" using assms(2) by simp
  note L = is_allowed_times_admits[OF assms(1) stale this]
  have A: "fst (is_allowed_times ?n t ident rl) = replicate ?n True"
    using L[THEN conjunct1] .
  have histA: "request_history ?rlA ident = replicate ?n t"
    using L[THEN conjunct2, THEN conjunct1] assms(2) by simp
  have cfgA: "max_requests ?rlA = max_requests rl" "window_seconds ?rlA = window_seconds rl"
    using L[THEN conjunct2, THEN conjunct2, THEN conjunct2] by simp_all
  have filtA: "filter (\<lambda>r. r > t - real_of_int (window_seconds ?rlA)) (request_history ?rlA ident) = replicate ?n t"
    using L[THEN conjunct2, THEN conjunct2, THEN conjunct1] by (simp add: cfgA)
  have full: "\<not> int (length (replicate ?n t)) < max_requests ?rlA"
    using assms(2) cfgA by simp
  let ?rlB = "?rlA\<lparr>requests := (requests ?rlA)(ident \<mapsto> replicate ?n t)\<rparr>"
  have B: "is_allowed t ident ?rlA = (False, ?rlB)"
    by (rule is_allowed_reject[OF filtA full])
  have C: "\<not> fst (is_allowed t2 ident2 rl2) \<longrightarrow>
            snd (is_allowed t2 ident2 rl2) =
              rl2\<lparr>requests := (requests rl2)(ident2 \<mapsto>
                 filter (\<lambda>r. r > t2 - real_of_int (window_seconds rl2)) (request_history rl2 ident2))\<rparr>"
    by (simp add: is_allowed_def Let_def)
  have D: "fst (is_allowed t3 ident ?rlB) = True" if "t + ?w \<le> t3"
  proof -
    have "filter (\<lambda>r. r > t3 - real_of_int (window_seconds ?rlB)) (request_history ?rlB ident) = []"
      using that cfgA by (auto simp: request_history_def filter_empty_conv)
    moreover have "int (length ([]::real list)) < max_requests ?rlB"
      using assms(2) cfgA by simp
    ultimately show ?thesis
      using is_allowed_admit[of t3 ?rlB ident "[]"] by simp
  qed
  show ?thesis using A B C D by simp
qed

theorem C5_sliding_window_witness:
  "fst (is_allowed_times 10 100 ''203.0.113.7''
          \<lparr>max_requests = 10, window_seconds = 60, requests = Map.empty\<rparr>) = replicate 10 True
   \<and> fst (is_allowed 100 ''203.0.113.7''
          (snd (is_allowed_times 10 100 ''203.0.113.7''
             \<lparr>max_requests = 10, window_seconds = 60, requests = Map.empty\<rparr>))) = False
   \<and> fst (is_allowed 160 ''203.0.113.7''
          (snd (is_allowed 100 ''203.0.113.7''
             (snd (is_allowed_times 10 100 ''203.0.113.7''
                \<lparr>max_requests = 10, window_seconds = 60, requests = Map.empty\<rparr>))))) = True"
  using C5_sliding_window[of "\<lparr>max_requests = 10, window_seconds = 60, requests = Map.empty\<rparr>"
      "''203.0.113.7''" 100 160]
  by (simp add: request_history_def)

text \<open>
  Claim C6. \<open>add_to_board_state\<close> on a \<open>clear\<close> action empties the log, so the
  snapshot \<open>board_state\<close> read right after it is empty; on a \<open>draw\<close> or \<open>text\<close>
  action it appends exactly that action at the end of the log; on an action of any other
  type (\<open>cursor\<close>, \<open>user_count\<close>, \<open>board_state\<close>, \<open>error\<close>, or anything else) it
  leaves the manager unchanged.
\<close>

theorem C6_apply_to_board_log:
  "(dict_get action ''type'' = Some (JStr ''clear'') \<longrightarrow>
      board_state (add_to_board_state action s) = [])
   \<and> (dict_get action ''type'' \<in> {Some (JStr ''draw''), Some (JStr ''text'')} \<longrightarrow>
      board_state (add_to_board_state action s) = board_state s @ [action])
   \<and> (dict_get action ''type'' \<notin> {Some (JStr ''clear''), Some (JStr ''draw''), Some (JStr ''text'')} \<longrightarrow>
      add_to_board_state action s = s)"
  by (auto simp add: add_to_board_state_def board_state_def Let_def)

theorem C6_apply_to_board_log_witness:
  "board_state (add_to_board_state (JObj [(''type'', JStr ''clear''), (''clientId'', JStr ''a'')])
      \<lparr>active_connections = [], connection_info = Map.empty, board = [JObj [(''type'', JStr ''draw'')]],
       client_activity = Map.empty, wire = [], accept_fails = {}, send_fails = {}\<rparr>) = []
   \<and> board_state (add_to_board_state (JObj [(''type'', JStr ''text''), (''clientId'', JStr ''a'')])
      \<lparr>active_connections = [], connection_info = Map.empty, board = [JObj [(''type'', JStr ''draw'')]],
       client_activity = Map.empty, wire = [], accept_fails = {}, send_fails = {}\<rparr>)
      = [JObj [(''type'', JStr ''draw'')], JObj [(''type'', JStr ''text''), (''clientId'', JStr ''a'')]]
   \<and> board_state (add_to_board_state (JObj [(''type'', JStr ''cursor''), (''clientId'', JStr ''a'')])
      \<lparr>active_connections = [], connection_info = Map.empty, board = [JObj [(''type'', JStr ''draw'')]],
       client_activity = Map.empty, wire = [], accept_fails = {}, send_fails = {}\<rparr>)
      = [JObj [(''type'', JStr ''draw'')]]"
  using C6_apply_to_board_log[of "JObj [(''type'', JStr ''clear''), (''clientId'', JStr ''a'')]"
      "\<lparr>active_connections = [], connection_info = Map.empty, board = [JObj [(''type'', JStr ''draw'')]],
       client_activity = Map.empty, wire = [], accept_fails = {}, send_fails = {}\<rparr>"]
    C6_apply_to_board_log[of "JObj [(''type'', JStr ''text''), (''clientId'', JStr ''a'')]"
      "\<lparr>active_connections = [], connection_info = Map.empty, board = [JObj [(''type'', JStr ''draw'')]],
       client_activity = Map.empty, wire = [], accept_fails = {}, send_fails = {}\<rparr>"]
    C6_apply_to_board_log[of "JObj [(''type'', JStr ''cursor''), (''clientId'', JStr ''a'')]"
      "\<lparr>active_connections = [], connection_info = Map.empty, board = [JObj [(''type'', JStr ''draw'')]],
       client_activity = Map.empty, wire = [], accept_fails = {}, send_fails = {}\<rparr>"]
  by (simp add: board_state_def)

section \<open>Processing of inbound frames\<close>

lemma message_type_of_value:
  "message_type_of v = Some t \<Longrightarrow> v = JStr (message_type_value t)"
  by (cases v) (auto simp: message_type_of_def split: if_splits)

lemma WebSocketMessage_validate_type:
  "WebSocketMessage_validate mx d = Inr m \<Longrightarrow>
     dict_get d ''type'' = Some (JStr (message_type_value (mtype m)))"
  by (auto simp: WebSocketMessage_validate_def dest!: message_type_of_value
      split: option.splits json.splits if_splits)

lemma payload_union_ok_dict: "is_dict p \<Longrightarrow> payload_union_ok mx p"
  by (simp add: payload_union_ok_def)

lemma payload_union_ok_iff: "payload_union_ok mx p = is_dict p"
  by (cases p)
     (auto simp: payload_union_ok_def DrawPayload_ok_def TextPayload_ok_def CursorPayload_ok_def
        UserCountPayload_ok_def BoardStatePayload_ok_def ErrorPayload_ok_def is_number_def)

lemma draw_with_object_payload_accepted:
  assumes "loads raw = Some d" and "is_dict d"
    and "dict_get d ''type'' = Some (JStr ''draw'')"
    and "dict_get d ''clientId'' = Some (JStr cid)"
    and "dict_get d ''payload'' = Some p" and "is_dict p"
  shows "process_incoming_message loads mx raw cid s =
           (Inr \<lparr>mtype = DRAW, client_id = cid, payload = p\<rparr>, s\<lparr>board := board s @ [d]\<rparr>)"
proof -
  have "d \<noteq> JNull" using assms(2) by auto
  moreover have "p \<noteq> JNull" using assms(6) by auto
  moreover have "WebSocketMessage_validate mx d = Inr \<lparr>mtype = DRAW, client_id = cid, payload = p\<rparr>"
    using assms(3-6) \<open>p \<noteq> JNull\<close>
    by (cases p) (simp_all add: WebSocketMessage_validate_def message_type_of_def payload_union_ok_def)
  ultimately show ?thesis
    using assms(1-4)
    by (simp add: process_incoming_message_def safe_json_loads_def Let_def add_to_board_state_def)
qed

text \<open>
  Claim C1. A draw message whose points list is longer than \<open>settings.max_stroke_points\<close>
  is to be rejected with a validation error, the board log staying as it was. The code
  does otherwise. \<open>validate_points_limit\<close> does reject the list, and so \<open>DrawPayload\<close>
  does not accept the payload; but the payload field is a union whose last member is
  \<open>Dict[str, Any]\<close>, which accepts every object, so the message validates and
  \<open>_process_incoming_message\<close> appends it to the log. Evaluated here for a stroke of
  1001 points under the default limit of 1000.
\<close>

theorem C1_oversized_stroke_accepted:
  "isl (validate_points_limit 1000 (replicate 1001 (JObj [(''x'', JNum 1), (''y'', JNum 2)])))
   \<and> \<not> DrawPayload_ok 1000
         (JObj [(''tool'', JStr ''pen''), (''color'', JStr ''#112233''), (''size'', JNum 4),
                (''points'', JArr (replicate 1001 (JObj [(''x'', JNum 1), (''y'', JNum 2)])))])
   \<and> process_incoming_message
        (\<lambda>raw. Some (JObj [(''type'', JStr ''draw''), (''clientId'', JStr ''a''),
           (''payload'', JObj [(''tool'', JStr ''pen''), (''color'', JStr ''#112233''), (''size'', JNum 4),
              (''points'', JArr (replicate 1001 (JObj [(''x'', JNum 1), (''y'', JNum 2)])))])]))
        1000 ''frame'' ''a''
        \<lparr>active_connections = [(''a'', 1)], connection_info = Map.empty, board = [],
         client_activity = Map.empty, wire = [], accept_fails = {}, send_fails = {}\<rparr>
     = (Inr \<lparr>mtype = DRAW, client_id = ''a'',
             payload = JObj [(''tool'', JStr ''pen''), (''color'', JStr ''#112233''), (''size'', JNum 4),
              (''points'', JArr (replicate 1001 (JObj [(''x'', JNum 1), (''y'', JNum 2)])))]\<rparr>,
        \<lparr>active_connections = [(''a'', 1)], connection_info = Map.empty,
         board = [JObj [(''type'', JStr ''draw''), (''clientId'', JStr ''a''),
           (''payload'', JObj [(''tool'', JStr ''pen''), (''color'', JStr ''#112233''), (''size'', JNum 4),
              (''points'', JArr (replicate 1001 (JObj [(''x'', JNum 1), (''y'', JNum 2)])))])]],
         client_activity = Map.empty, wire = [], accept_fails = {}, send_fails = {}\<rparr>)"
  by (simp add: validate_points_limit_def DrawPayload_ok_def process_incoming_message_def
      safe_json_loads_def WebSocketMessage_validate_def message_type_of_def payload_union_ok_def
      add_to_board_state_def Let_def)

text \<open>
  Claim C3, as the code has it. \<open>_process_incoming_message\<close> never touches the registry
  (connections, metadata, activity records) and never sends a frame. When it fails, the
  whole manager, board log included, is as before. When it returns a message, it has
  already applied it to the board log: the log is emptied for \<open>clear\<close>, the received
  action is appended for \<open>draw\<close> and \<open>text\<close>, and the log is unchanged for the other
  types.
\<close>

theorem C3_processing_frame:
  "active_connections (snd (process_incoming_message loads mx raw cid s)) = active_connections s
   \<and> connection_info (snd (process_incoming_message loads mx raw cid s)) = connection_info s
   \<and> client_activity (snd (process_incoming_message loads mx raw cid s)) = client_activity s
   \<and> wire (snd (process_incoming_message loads mx raw cid s)) = wire s
   \<and> (case fst (process_incoming_message loads mx raw cid s) of
         Inl e \<Rightarrow> snd (process_incoming_message loads mx raw cid s) = s
       | Inr m \<Rightarrow>
           snd (process_incoming_message loads mx raw cid s) =
             s\<lparr>board := (if mtype m = CLEAR then []
                         else if mtype m = DRAW \<or> mtype m = TEXT
                         then board s @ [safe_json_loads loads raw]
                         else board s)\<rparr>)"
proof -
  let ?d = "safe_json_loads loads raw"
  show ?thesis
  proof (cases "WebSocketMessage_validate mx ?d")
    case (Inl e)
    then show ?thesis
      by (simp add: process_incoming_message_def Let_def)
  next
    case (Inr m)
    from WebSocketMessage_validate_type[OF Inr]
    have ty: "dict_get ?d ''type'' = Some (JStr (message_type_value (mtype m)))" .
    show ?thesis
      using Inr ty
      by (cases "mtype m") (simp_all add: process_incoming_message_def Let_def add_to_board_state_def)
  qed
qed

text \<open>
  Processing is not free of effects on the board log: a valid draw message of three
  points, sent to an empty board, leaves the log changed.
\<close>

theorem C3_validation_pure_counterexample:
  "board (snd (process_incoming_message
        (\<lambda>raw. Some (JObj [(''type'', JStr ''draw''), (''clientId'', JStr ''a''),
           (''payload'', JObj [(''tool'', JStr ''pen''), (''color'', JStr ''#112233''), (''size'', JNum 4),
              (''points'', JArr [JObj [(''x'', JNum 1), (''y'', JNum 2)],
                                 JObj [(''x'', JNum 3), (''y'', JNum 4)],
                                 JObj [(''x'', JNum 5), (''y'', JNum 6)]])])]))
        1000 ''frame'' ''a''
        \<lparr>active_connections = [(''a'', 1)], connection_info = Map.empty, board = [],
         client_activity = Map.empty, wire = [], accept_fails = {}, send_fails = {}\<rparr>))
   \<noteq> board \<lparr>active_connections = [(''a'', 1)], connection_info = Map.empty, board = [],
         client_activity = Map.empty, wire = [], accept_fails = {}, send_fails = {}\<rparr>
   \<and> DrawPayload_ok 1000
         (JObj [(''tool'', JStr ''pen''), (''color'', JStr ''#112233''), (''size'', JNum 4),
              (''points'', JArr [JObj [(''x'', JNum 1), (''y'', JNum 2)],
                                 JObj [(''x'', JNum 3), (''y'', JNum 4)],
                                 JObj [(''x'', JNum 5), (''y'', JNum 6)]])])"
  by (simp add: validate_points_limit_def DrawPayload_ok_def process_incoming_message_def
      safe_json_loads_def WebSocketMessage_validate_def message_type_of_def payload_union_ok_def
      add_to_board_state_def Let_def is_hex_color_def Point_ok_def validate_coordinates_def)

section \<open>Session registry and broadcast\<close>

lemma update_client_activity_sel [simp]:
  "active_connections (update_client_activity now c s) = active_connections s"
  "board (update_client_activity now c s) = board s"
  "wire (update_client_activity now c s) = wire s"
  "send_fails (update_client_activity now c s) = send_fails s"
  "accept_fails (update_client_activity now c s) = accept_fails s"
  "client_activity (update_client_activity now c s) = (client_activity s)(c \<mapsto> now)"
  "connection_info (update_client_activity now c s) =
     (case connection_info s c of None \<Rightarrow> connection_info s
      | Some i \<Rightarrow> (connection_info s)(c \<mapsto> i\<lparr>last_activity := now\<rparr>))"
  by (simp_all add: update_client_activity_def Let_def split: option.splits)

lemma delivered_sel [simp]:
  "active_connections (delivered now m p s) = active_connections s"
  "board (delivered now m p s) = board s"
  "wire (delivered now m p s) = wire s @ [\<lparr>dest = Some (fst p), sock = snd p, frame = m\<rparr>]"
  "send_fails (delivered now m p s) = send_fails s"
  "accept_fails (delivered now m p s) = accept_fails s"
  "client_activity (delivered now m p s) = (client_activity s)(fst p \<mapsto> now)"
  "connection_info (delivered now m p s) =
     (case connection_info s (fst p) of None \<Rightarrow> connection_info s
      | Some i \<Rightarrow> (connection_info s)(fst p \<mapsto> i\<lparr>last_activity := now\<rparr>))"
  by (simp_all add: delivered_def split: option.splits)

lemma fold_delivered_sel [simp]:
  "active_connections (fold (delivered now m) ps s) = active_connections s"
  "board (fold (delivered now m) ps s) = board s"
  "send_fails (fold (delivered now m) ps s) = send_fails s"
  "accept_fails (fold (delivered now m) ps s) = accept_fails s"
  "wire (fold (delivered now m) ps s) =
     wire s @ map (\<lambda>p. \<lparr>dest = Some (fst p), sock = snd p, frame = m\<rparr>) ps"
  by (induction ps arbitrary: s; simp)+

lemma fold_delivered_activity:
  "client_activity (fold (delivered now m) ps s) c =
     (if c \<in> fst ` set ps then Some now else client_activity s c)"
  by (induction ps arbitrary: s) auto

lemma fold_delivered_info:
  "connection_info (fold (delivered now m) ps s) c =
     (if c \<in> fst ` set ps then map_option (\<lambda>i. i\<lparr>last_activity := now\<rparr>) (connection_info s c)
      else connection_info s c)"
  by (induction ps arbitrary: s) (auto split: option.splits)

lemma broadcast_loop_eq:
  "broadcast_loop now m ex items (n, failed, s) =
     (n + length (filter (\<lambda>(cid, w). \<not> excluded ex cid \<and> w \<notin> send_fails s) items),
      failed @ map fst (filter (\<lambda>(cid, w). \<not> excluded ex cid \<and> w \<in> send_fails s) items),
      fold (delivered now m) (filter (\<lambda>(cid, w). \<not> excluded ex cid \<and> w \<notin> send_fails s) items) s)"
proof (induction items arbitrary: n failed s)
  case Nil
  then show ?case by simp
next
  case (Cons p items)
  obtain cid w where p: "p = (cid, w)" by (cases p)
  show ?case
    unfolding p
    by (simp add: Cons.IH send_text_def delivered_def)
qed

lemma broadcast_Suc:
  "broadcast (Suc k) now m ex s =
     (if active_connections s = [] then Some (0, s)
      else case handle_connection_errors k now (failures ex s) (fold (delivered now m) (recipients ex s) s) of
             None \<Rightarrow> None
           | Some s2 \<Rightarrow> Some (length (recipients ex s), s2))"
  unfolding recipients_def failures_def by (simp add: broadcast_loop_eq)


declare broadcast.simps(2) [simp del] disconnect.simps [simp del] broadcast_user_count.simps [simp del]

lemma remove_client_sel [simp]:
  "active_connections (remove_client c s) = AList.delete c (active_connections s)"
  "connection_info (remove_client c s) = (connection_info s)(c := None)"
  "client_activity (remove_client c s) = (client_activity s)(c := None)"
  "board (remove_client c s) = board s"
  "wire (remove_client c s) = wire s"
  "send_fails (remove_client c s) = send_fails s"
  "accept_fails (remove_client c s) = accept_fails s"
  by (simp_all add: remove_client_def)

lemma manager_induct [case_names no_fuel broadcast no_errors errors disconnect user_count]:
  assumes "\<And>now m ex s. P1 0 now m ex s"
    and "\<And>k now m ex s.
           (active_connections s \<noteq> [] \<Longrightarrow>
              P2 k now (failures ex s) (fold (delivered now m) (recipients ex s) s)) \<Longrightarrow>
           P1 (Suc k) now m ex s"
    and "\<And>k now s. P2 k now [] s"
    and "\<And>k now cid rest s.
           P3 k now cid s \<Longrightarrow>
           (\<And>s1. disconnect k now cid s = Some s1 \<Longrightarrow> P2 k now rest s1) \<Longrightarrow>
           P2 k now (cid # rest) s"
    and "\<And>k now cid s. P4 k now (remove_client cid s) \<Longrightarrow> P3 k now cid s"
    and "\<And>k now s.
           P1 k now (user_count_message (active_connections_count s)) None s \<Longrightarrow> P4 k now s"
  shows "P1 k now m ex s" and "P2 k now cs s" and "P3 k now c s" and "P4 k now s"
proof (induction k now m ex s and k now cs s and k now c s and k now s
       rule: broadcast_handle_connection_errors_disconnect_broadcast_user_count.induct)
  case (1 now m exclude_client s)
  show ?case by (rule assms(1))
next
  case (2 k now m exclude_client s)
  show ?case
  proof (rule assms(2))
    assume ne: "active_connections s \<noteq> []"
    show "P2 k now (failures exclude_client s)
            (fold (delivered now m) (recipients exclude_client s) s)"
      using "2.IH"[OF ne, of "length (recipients exclude_client s)"
          "(failures exclude_client s, fold (delivered now m) (recipients exclude_client s) s)"
          "failures exclude_client s" "fold (delivered now m) (recipients exclude_client s) s"]
      by (simp add: broadcast_loop_eq recipients_def failures_def)
  qed
next
  case (3 k now s)
  show ?case by (rule assms(3))
next
  case (4 k now cid rest s)
  show ?case using "4.IH" by (intro assms(4)) auto
next
  case (5 k now cid s)
  then show ?case by (intro assms(5))
next
  case (6 k now s)
  then show ?case by (intro assms(6))
qed



lemma broadcast_SucE:
  assumes "broadcast (Suc k) now m ex s = Some (n, s')"
  obtains "active_connections s = []" "n = 0" "s' = s"
  | "active_connections s \<noteq> []" "n = length (recipients ex s)"
    "handle_connection_errors k now (failures ex s) (fold (delivered now m) (recipients ex s) s) = Some s'"
  using assms by (auto simp: broadcast_Suc split: if_splits option.splits)

lemma handle_ConsE:
  assumes "handle_connection_errors k now (cid # rest) s = Some s'"
  obtains s1 where "disconnect k now cid s = Some s1" "handle_connection_errors k now rest s1 = Some s'"
  using assms by (auto split: option.splits)

lemma broadcast_user_countE:
  assumes "broadcast_user_count k now s = Some s'"
  obtains n where "broadcast k now (user_count_message (active_connections_count s)) None s = Some (n, s')"
  using assms by (auto simp: broadcast_user_count.simps split: option.splits)

lemma manager_rel:
  assumes refl: "\<And>s. R s s" and trans: "\<And>s t u. R s t \<Longrightarrow> R t u \<Longrightarrow> R s u"
    and del: "\<And>now m ex s. R s (fold (delivered now m) (recipients ex s) s)"
    and rem: "\<And>c s. R s (remove_client c s)"
  shows "broadcast k now m ex s = Some (n, s') \<Longrightarrow> R s s'"
    and "handle_connection_errors k now cs s = Some s' \<Longrightarrow> R s s'"
    and "disconnect k now c s = Some s' \<Longrightarrow> R s s'"
    and "broadcast_user_count k now s = Some s' \<Longrightarrow> R s s'"
proof (induction k now m ex s and k now cs s and k now c s and k now s
       arbitrary: n s' and s' and s' and s' rule: manager_induct)
  case (no_fuel now m ex s)
  then show ?case by simp
next
  case (broadcast k now m ex s)
  from broadcast.prems show ?case
  proof (cases rule: broadcast_SucE)
    case 1
    then show ?thesis by (simp add: refl)
  next
    case 2
    from broadcast.IH[OF 2(1) 2(3)] del[of s now m ex]
    show ?thesis by (rule trans[rotated])
  qed
next
  case (no_errors k now s)
  then show ?case by (simp add: refl)
next
  case (errors k now cid rest s)
  from errors.prems obtain s1 where
    d: "disconnect k now cid s = Some s1" and h: "handle_connection_errors k now rest s1 = Some s'"
    by (rule handle_ConsE)
  from errors.IH(1)[OF d] errors.IH(2)[OF d h] show ?case by (rule trans)
next
  case (disconnect k now cid s)
  from disconnect.prems have "broadcast_user_count k now (remove_client cid s) = Some s'"
    by (simp add: disconnect.simps)
  from rem[of s cid] disconnect.IH[OF this] show ?case by (rule trans)
next
  case (user_count k now s)
  from user_count.prems obtain n where
    "broadcast k now (user_count_message (active_connections_count s)) None s = Some (n, s')"
    by (rule broadcast_user_countE)
  then show ?case by (rule user_count.IH)
qed


lemma recipients_keys: "fst ` set (recipients ex s) \<subseteq> fst ` set (active_connections s)"
  by (auto simp: recipients_def)

lemma failures_keys: "set (failures ex s) \<subseteq> fst ` set (active_connections s)"
  by (auto simp: failures_def)

lemma length_delete_less: "c \<in> fst ` set al \<Longrightarrow> length (AList.delete c al) < length al"
  by (auto simp: AList.delete_eq intro: length_filter_less)

lemma active_shrinks:
  shows "broadcast k now m ex s = Some (n, s') \<Longrightarrow>
           length (active_connections s') \<le> length (active_connections s)"
    and "handle_connection_errors k now cs s = Some s' \<Longrightarrow>
           length (active_connections s') \<le> length (active_connections s)"
    and "disconnect k now c s = Some s' \<Longrightarrow>
           length (active_connections s') \<le> length (active_connections (remove_client c s))"
    and "broadcast_user_count k now s = Some s' \<Longrightarrow>
           length (active_connections s') \<le> length (active_connections s)"
proof -
  show "broadcast k now m ex s = Some (n, s') \<Longrightarrow>
           length (active_connections s') \<le> length (active_connections s)"
    by (erule manager_rel(1)[where R = "\<lambda>s s'. length (active_connections s') \<le> length (active_connections s)", rotated 4])
       (simp_all add: length_delete_le)
  show "handle_connection_errors k now cs s = Some s' \<Longrightarrow>
           length (active_connections s') \<le> length (active_connections s)"
    by (erule manager_rel(2)[where R = "\<lambda>s s'. length (active_connections s') \<le> length (active_connections s)", rotated 4])
       (simp_all add: length_delete_le)
  show U: "broadcast_user_count k now s = Some s' \<Longrightarrow>
           length (active_connections s') \<le> length (active_connections s)" for s
    by (erule manager_rel(4)[where R = "\<lambda>s s'. length (active_connections s') \<le> length (active_connections s)", rotated 4])
       (simp_all add: length_delete_le)
  show "disconnect k now c s = Some s' \<Longrightarrow>
           length (active_connections s') \<le> length (active_connections (remove_client c s))"
    using U[of "remove_client c s"] by (simp add: disconnect.simps)
qed

lemma enough_fuel:
  shows "length (active_connections s) < k \<Longrightarrow> \<exists>r. broadcast k now m ex s = Some r"
    and "(cs \<noteq> [] \<Longrightarrow> length (AList.delete (hd cs) (active_connections s)) < k) \<Longrightarrow>
           \<exists>s'. handle_connection_errors k now cs s = Some s'"
    and "length (AList.delete c (active_connections s)) < k \<Longrightarrow>
           \<exists>s'. disconnect k now c s = Some s'"
    and "length (active_connections s) < k \<Longrightarrow> \<exists>s'. broadcast_user_count k now s = Some s'"
proof (induction k now m ex s and k now cs s and k now c s and k now s rule: manager_induct)
  case (no_fuel now m ex s)
  then show ?case by simp
next
  case (broadcast k now m ex s)
  show ?case
  proof (cases "active_connections s = []")
    case True
    then show ?thesis by (simp add: broadcast_Suc)
  next
    case False
    have "\<exists>s'. handle_connection_errors k now (failures ex s)
                 (fold (delivered now m) (recipients ex s) s) = Some s'"
    proof (rule broadcast.IH[OF False])
      assume ne: "failures ex s \<noteq> []"
      then have "hd (failures ex s) \<in> fst ` set (active_connections s)"
        using failures_keys[of ex s] hd_in_set[OF ne] by blast
      from length_delete_less[OF this] broadcast.prems
      show "length (AList.delete (hd (failures ex s))
              (active_connections (fold (delivered now m) (recipients ex s) s))) < k"
        by simp
    qed
    then show ?thesis using False by (auto simp: broadcast_Suc)
  qed
next
  case (no_errors k now s)
  then show ?case by simp
next
  case (errors k now cid rest s)
  from errors.prems have "length (AList.delete cid (active_connections s)) < k" by simp
  from errors.IH(1)[OF this] obtain s1 where d: "disconnect k now cid s = Some s1" by blast
  from active_shrinks(3)[OF d] \<open>length (AList.delete cid (active_connections s)) < k\<close>
  have "length (active_connections s1) < k" by simp
  then have "rest \<noteq> [] \<Longrightarrow> length (AList.delete (hd rest) (active_connections s1)) < k"
    using length_delete_le[of "hd rest" "active_connections s1"] by simp
  from errors.IH(2)[OF d this] show ?case using d by simp
next
  case (disconnect k now cid s)
  then show ?case by (simp add: disconnect.simps)
next
  case (user_count k now s)
  from user_count.IH[OF user_count.prems] show ?case
    by (auto simp: broadcast_user_count.simps)
qed


lemma unregistered_delivered:
  "unregistered c s \<Longrightarrow> unregistered c (fold (delivered now m) (recipients ex s) s)"
  using recipients_keys[of ex s]
  by (auto simp: unregistered_def fold_delivered_activity fold_delivered_info)

lemma unregistered_remove_other:
  "unregistered c s \<Longrightarrow> unregistered c (remove_client c' s)"
  by (auto simp: unregistered_def AList.delete_eq)

lemma unregistered_remove_client: "unregistered c (remove_client c s)"
  by (auto simp: unregistered_def AList.delete_eq)

lemma unregistered_kept:
  shows "broadcast k now m ex s = Some (n, s') \<Longrightarrow> unregistered c s \<Longrightarrow> unregistered c s'"
    and "handle_connection_errors k now cs s = Some s' \<Longrightarrow> unregistered c s \<Longrightarrow> unregistered c s'"
    and "disconnect k now c' s = Some s' \<Longrightarrow> unregistered c s \<Longrightarrow> unregistered c s'"
    and "broadcast_user_count k now s = Some s' \<Longrightarrow> unregistered c s \<Longrightarrow> unregistered c s'"
proof -
  show "broadcast k now m ex s = Some (n, s') \<Longrightarrow> unregistered c s \<Longrightarrow> unregistered c s'"
    by (erule manager_rel(1)[where R = "\<lambda>s s'. unregistered c s \<longrightarrow> unregistered c s'", rotated 4, THEN mp])
       (simp_all add: unregistered_delivered unregistered_remove_other)
  show "handle_connection_errors k now cs s = Some s' \<Longrightarrow> unregistered c s \<Longrightarrow> unregistered c s'"
    by (erule manager_rel(2)[where R = "\<lambda>s s'. unregistered c s \<longrightarrow> unregistered c s'", rotated 4, THEN mp])
       (simp_all add: unregistered_delivered unregistered_remove_other)
  show "disconnect k now c' s = Some s' \<Longrightarrow> unregistered c s \<Longrightarrow> unregistered c s'"
    by (erule manager_rel(3)[where R = "\<lambda>s s'. unregistered c s \<longrightarrow> unregistered c s'", rotated 4, THEN mp])
       (simp_all add: unregistered_delivered unregistered_remove_other)
  show "broadcast_user_count k now s = Some s' \<Longrightarrow> unregistered c s \<Longrightarrow> unregistered c s'"
    by (erule manager_rel(4)[where R = "\<lambda>s s'. unregistered c s \<longrightarrow> unregistered c s'", rotated 4, THEN mp])
       (simp_all add: unregistered_delivered unregistered_remove_other)
qed

lemma disconnect_unregisters:
  assumes "disconnect k now c s = Some s'"
  shows "unregistered c s'"
proof -
  from assms have "broadcast_user_count k now (remove_client c s) = Some s'"
    by (simp add: disconnect.simps)
  from unregistered_kept(4)[OF this unregistered_remove_client] show ?thesis .
qed

lemma handle_unregisters:
  "handle_connection_errors k now cs s = Some s' \<Longrightarrow> c \<in> set cs \<Longrightarrow> unregistered c s'"
proof (induction cs arbitrary: s)
  case Nil
  then show ?case by simp
next
  case (Cons a cs)
  from Cons.prems(1) obtain s1 where
    d: "disconnect k now a s = Some s1" and h: "handle_connection_errors k now cs s1 = Some s'"
    by (rule handle_ConsE)
  show ?case
  proof (cases "c = a")
    case True
    from disconnect_unregisters[OF d] unregistered_kept(2)[OF h] True show ?thesis by simp
  next
    case False
    with Cons.prems(2) have "c \<in> set cs" by simp
    from Cons.IH[OF h this] show ?thesis .
  qed
qed


lemma user_count_frame_message [simp]:
  "user_count_frame \<lparr>dest = d, sock = w, frame = user_count_message j\<rparr>"
  by (simp add: user_count_frame_def user_count_message_def)

lemma wire_structure:
  shows "broadcast k now m ex s = Some (n, s') \<Longrightarrow>
           \<exists>ext. wire s' = wire s @ map (\<lambda>p. \<lparr>dest = Some (fst p), sock = snd p, frame = m\<rparr>)
                                   (recipients ex s) @ ext \<and> list_all user_count_frame ext"
    and "handle_connection_errors k now cs s = Some s' \<Longrightarrow>
           \<exists>ext. wire s' = wire s @ ext \<and> list_all user_count_frame ext"
    and "disconnect k now c s = Some s' \<Longrightarrow>
           \<exists>ext. wire s' = wire s @ ext \<and> list_all user_count_frame ext"
    and "broadcast_user_count k now s = Some s' \<Longrightarrow>
           \<exists>ext. wire s' = wire s @ ext \<and> list_all user_count_frame ext"
proof (induction k now m ex s and k now cs s and k now c s and k now s
       arbitrary: n s' and s' and s' and s' rule: manager_induct)
  case (no_fuel now m ex s)
  then show ?case by simp
next
  case (broadcast k now m ex s)
  from broadcast.prems show ?case
  proof (cases rule: broadcast_SucE)
    case 1
    then show ?thesis by (simp add: recipients_def)
  next
    case 2
    from broadcast.IH[OF 2(1) 2(3)] show ?thesis by simp
  qed
next
  case (no_errors k now s)
  then show ?case by simp
next
  case (errors k now cid rest s)
  from errors.prems obtain s1 where
    d: "disconnect k now cid s = Some s1" and h: "handle_connection_errors k now rest s1 = Some s'"
    by (rule handle_ConsE)
  from errors.IH(1)[OF d] obtain e1 where e1: "wire s1 = wire s @ e1" "list_all user_count_frame e1"
    by blast
  from errors.IH(2)[OF d h] obtain e2 where e2: "wire s' = wire s1 @ e2" "list_all user_count_frame e2"
    by blast
  from e1 e2 have "wire s' = wire s @ (e1 @ e2) \<and> list_all user_count_frame (e1 @ e2)" by simp
  then show ?case by blast
next
  case (disconnect k now cid s)
  from disconnect.prems have "broadcast_user_count k now (remove_client cid s) = Some s'"
    by (simp add: disconnect.simps)
  from disconnect.IH[OF this] show ?case by simp
next
  case (user_count k now s)
  from user_count.prems obtain n where
    "broadcast k now (user_count_message (active_connections_count s)) None s = Some (n, s')"
    by (rule broadcast_user_countE)
  from user_count.IH[OF this] obtain ext where
    e: "wire s' = wire s @ map (\<lambda>p. \<lparr>dest = Some (fst p), sock = snd p,
           frame = user_count_message (active_connections_count s)\<rparr>) (recipients None s) @ ext"
      "list_all user_count_frame ext"
    by blast
  let ?e = "map (\<lambda>p. \<lparr>dest = Some (fst p), sock = snd p,
           frame = user_count_message (active_connections_count s)\<rparr>) (recipients None s) @ ext"
  have "wire s' = wire s @ ?e \<and> list_all user_count_frame ?e"
    using e by (auto simp: list_all_iff)
  then show ?case by blast
qed


lemma broadcast_result:
  assumes "length (active_connections s) < k"
  shows "\<exists>s' ext. broadcast k now m ex s = Some (length (recipients ex s), s')
          \<and> wire s' = wire s @ map (\<lambda>p. \<lparr>dest = Some (fst p), sock = snd p, frame = m\<rparr>)
                                   (recipients ex s) @ ext
          \<and> list_all user_count_frame ext
          \<and> (\<forall>c \<in> set (failures ex s). unregistered c s')"
proof -
  from enough_fuel(1)[OF assms] obtain n s' where b: "broadcast k now m ex s = Some (n, s')"
    by fastforce
  from assms obtain j where k: "k = Suc j" by (cases k) auto
  have n: "n = length (recipients ex s)"
    using b unfolding k by (cases rule: broadcast_SucE) (simp_all add: recipients_def)
  from wire_structure(1)[OF b] obtain ext where
    w: "wire s' = wire s @ map (\<lambda>p. \<lparr>dest = Some (fst p), sock = snd p, frame = m\<rparr>)
                                   (recipients ex s) @ ext" "list_all user_count_frame ext"
    by blast
  have "\<forall>c \<in> set (failures ex s). unregistered c s'"
    using b unfolding k
  proof (cases rule: broadcast_SucE)
    case 1
    then show ?thesis by (simp add: failures_def)
  next
    case 2
    from handle_unregisters[OF 2(3)] show ?thesis by blast
  qed
  with b n w show ?thesis by blast
qed

text \<open>
  Claim C7. With enough fuel for the nested deregistrations, \<open>broadcast\<close> returns, and
  the number it returns is exactly the number of sessions to which the send succeeded:
  the sessions that are not excluded and whose socket accepts the frame. The message is
  delivered to each of them, in registry order, whatever failed before them in the
  iteration; everything sent after that is a \<open>user_count\<close> notification. Every session
  whose send failed has been deregistered when \<open>broadcast\<close> returns: it is in none of the
  three tables of the manager; the fan-out made its single attempt on it and sent it
  nothing.
\<close>

theorem C7_broadcast_delivery_count:
  assumes "length (active_connections s) < k"
  shows "\<exists>s' ext. broadcast k now m ex s = Some (length (recipients ex s), s')
          \<and> wire s' = wire s @ map (\<lambda>p. \<lparr>dest = Some (fst p), sock = snd p, frame = m\<rparr>)
                                   (recipients ex s) @ ext
          \<and> list_all user_count_frame ext
          \<and> (\<forall>c \<in> set (failures ex s). unregistered c s')"
  using broadcast_result[OF assms] .

theorem C7_broadcast_delivery_count_witness:
  "\<exists>s' ext. broadcast 4 7 \<lparr>mtype = CURSOR, client_id = ''a'', payload = JNull\<rparr> (Some ''a'')
        \<lparr>active_connections = [(''a'', 1), (''b'', 2), (''c'', 3)], connection_info = Map.empty,
         board = [], client_activity = Map.empty, wire = [], accept_fails = {}, send_fails = {2}\<rparr>
      = Some (1, s')
    \<and> wire s' = \<lparr>dest = Some ''c'', sock = 3, frame = \<lparr>mtype = CURSOR, client_id = ''a'', payload = JNull\<rparr>\<rparr> # ext
    \<and> list_all user_count_frame ext
    \<and> unregistered ''b'' s'"
  using C7_broadcast_delivery_count[of
        "\<lparr>active_connections = [(''a'', 1), (''b'', 2), (''c'', 3)], connection_info = Map.empty,
         board = [], client_activity = Map.empty, wire = [], accept_fails = {}, send_fails = {2}\<rparr>"
        4 7 "\<lparr>mtype = CURSOR, client_id = ''a'', payload = JNull\<rparr>" "Some ''a''"]
  by (simp add: recipients_def failures_def excluded_def)

text \<open>
  The guard of the loop is \<open>exclude_client and client_id == exclude_client\<close>, and the
  empty string is false in Python: on a registry that held a session under the empty id,
  \<open>exclude=""\<close> would exclude nobody. Ids come from the route \<open>/ws/{client_id}\<close>, whose
  parameter is never empty.
\<close>

lemma exclude_empty_string_excludes_nobody:
  "map_option (\<lambda>r. (fst r, wire (snd r)))
     (broadcast (Suc 0) 7 \<lparr>mtype = CURSOR, client_id = [], payload = JNull\<rparr> (Some [])
        \<lparr>active_connections = [([], 1), (''b'', 2)], connection_info = Map.empty,
         board = [], client_activity = Map.empty, wire = [], accept_fails = {}, send_fails = {}\<rparr>)
   = Some (2, [\<lparr>dest = Some [], sock = 1, frame = \<lparr>mtype = CURSOR, client_id = [], payload = JNull\<rparr>\<rparr>,
               \<lparr>dest = Some ''b'', sock = 2, frame = \<lparr>mtype = CURSOR, client_id = [], payload = JNull\<rparr>\<rparr>])"
  by (simp add: broadcast_Suc recipients_def failures_def excluded_def)

lemma no_failures_recipients:
  "failures None s = [] \<Longrightarrow> recipients None s = active_connections s"
  by (auto simp: failures_def recipients_def excluded_def filter_empty_conv filter_id_conv)

lemma broadcast_no_failures:
  assumes "broadcast k now m ex s = Some (n, s')" and "failures ex s = []"
  shows "s' = fold (delivered now m) (recipients ex s) s"
proof -
  from assms(1) obtain j where k: "k = Suc j" by (cases k) auto
  from assms(1) show ?thesis unfolding k
  proof (cases rule: broadcast_SucE)
    case 1
    then show ?thesis by (simp add: recipients_def)
  next
    case 2
    then show ?thesis using assms(2) by simp
  qed
qed

lemma user_count_ends:
  shows "broadcast k now m ex s = Some (n, s') \<Longrightarrow> failures ex s \<noteq> [] \<Longrightarrow>
           \<exists>pre. wire s' = wire s @ pre @ user_count_deliveries s'"
    and "handle_connection_errors k now cs s = Some s' \<Longrightarrow> cs \<noteq> [] \<Longrightarrow>
           \<exists>pre. wire s' = wire s @ pre @ user_count_deliveries s'"
    and "disconnect k now c s = Some s' \<Longrightarrow>
           \<exists>pre. wire s' = wire s @ pre @ user_count_deliveries s'"
    and "broadcast_user_count k now s = Some s' \<Longrightarrow>
           \<exists>pre. wire s' = wire s @ pre @ user_count_deliveries s'"
proof (induction k now m ex s and k now cs s and k now c s and k now s
       arbitrary: n s' and s' and s' and s' rule: manager_induct)
  case (no_fuel now m ex s)
  then show ?case by simp
next
  case (broadcast k now m ex s)
  from broadcast.prems(1) show ?case
  proof (cases rule: broadcast_SucE)
    case 1
    with broadcast.prems(2) show ?thesis by (simp add: failures_def)
  next
    case 2
    from broadcast.IH[OF 2(1) 2(3) broadcast.prems(2)] obtain pre where
      "wire s' = wire (fold (delivered now m) (recipients ex s) s) @ pre @ user_count_deliveries s'"
      by blast
    then have "wire s' = wire s @ (map (\<lambda>p. \<lparr>dest = Some (fst p), sock = snd p, frame = m\<rparr>)
                 (recipients ex s) @ pre) @ user_count_deliveries s'"
      by simp
    then show ?thesis by blast
  qed
next
  case (no_errors k now s)
  then show ?case by simp
next
  case (errors k now cid rest s)
  from errors.prems(1) obtain s1 where
    d: "disconnect k now cid s = Some s1" and h: "handle_connection_errors k now rest s1 = Some s'"
    by (rule handle_ConsE)
  from errors.IH(1)[OF d] obtain p1 where p1: "wire s1 = wire s @ p1 @ user_count_deliveries s1"
    by blast
  show ?case
  proof (cases "rest = []")
    case True
    with h have "s' = s1" by simp
    with p1 show ?thesis by blast
  next
    case False
    from errors.IH(2)[OF d h False] obtain p2 where
      "wire s' = wire s1 @ p2 @ user_count_deliveries s'" by blast
    with p1 have "wire s' = wire s @ (p1 @ user_count_deliveries s1 @ p2) @ user_count_deliveries s'"
      by simp
    then show ?thesis by blast
  qed
next
  case (disconnect k now cid s)
  from disconnect.prems have "broadcast_user_count k now (remove_client cid s) = Some s'"
    by (simp add: disconnect.simps)
  from disconnect.IH[OF this] show ?case by simp
next
  case (user_count k now s)
  from user_count.prems obtain n where
    b: "broadcast k now (user_count_message (active_connections_count s)) None s = Some (n, s')"
    by (rule broadcast_user_countE)
  show ?case
  proof (cases "failures None s = []")
    case True
    from broadcast_no_failures[OF b True] no_failures_recipients[OF True]
    have "s' = fold (delivered now (user_count_message (active_connections_count s)))
                 (active_connections s) s" by simp
    then have "wire s' = wire s @ [] @ user_count_deliveries s'"
      by (simp add: user_count_deliveries_def active_connections_count_def)
    then show ?thesis by blast
  next
    case False
    from user_count.IH[OF b False] show ?thesis .
  qed
qed

lemma settled_no_failures: "settled now s \<Longrightarrow> failures ex s = []"
  by (auto simp: settled_def failures_def list_all_iff filter_empty_conv)

lemma settled_fold:
  assumes "failures None s = []"
  shows "settled now (fold (delivered now m) (active_connections s) s)"
proof -
  from assms have up: "\<forall>p \<in> set (active_connections s). snd p \<notin> send_fails s"
    by (auto simp: failures_def excluded_def filter_empty_conv)
  show ?thesis
    unfolding settled_def list_all_iff
    using up by (auto simp: fold_delivered_activity fold_delivered_info split: option.splits)
qed

lemma settles:
  shows "broadcast k now m ex s = Some (n, s') \<Longrightarrow> ex = None \<Longrightarrow> settled now s'"
    and "handle_connection_errors k now cs s = Some s' \<Longrightarrow> cs \<noteq> [] \<Longrightarrow> settled now s'"
    and "disconnect k now c s = Some s' \<Longrightarrow> settled now s'"
    and "broadcast_user_count k now s = Some s' \<Longrightarrow> settled now s'"
proof (induction k now m ex s and k now cs s and k now c s and k now s
       arbitrary: n s' and s' and s' and s' rule: manager_induct)
  case (no_fuel now m ex s)
  then show ?case by simp
next
  case (broadcast k now m ex s)
  show ?case
  proof (cases "failures ex s = []")
    case True
    from broadcast_no_failures[OF broadcast.prems(1) True] no_failures_recipients[of s] True
      broadcast.prems(2)
    have "s' = fold (delivered now m) (active_connections s) s" by simp
    with settled_fold[of s now m] True broadcast.prems(2) show ?thesis by simp
  next
    case False
    from broadcast.prems(1) show ?thesis
    proof (cases rule: broadcast_SucE)
      case 1
      with False show ?thesis by (simp add: failures_def)
    next
      case 2
      from broadcast.IH[OF 2(1) 2(3) False] show ?thesis .
    qed
  qed
next
  case (no_errors k now s)
  then show ?case by simp
next
  case (errors k now cid rest s)
  from errors.prems(1) obtain s1 where
    d: "disconnect k now cid s = Some s1" and h: "handle_connection_errors k now rest s1 = Some s'"
    by (rule handle_ConsE)
  show ?case
  proof (cases "rest = []")
    case True
    with h have "s' = s1" by simp
    with errors.IH(1)[OF d] show ?thesis by simp
  next
    case False
    from errors.IH(2)[OF d h False] show ?thesis .
  qed
next
  case (disconnect k now cid s)
  from disconnect.prems have "broadcast_user_count k now (remove_client cid s) = Some s'"
    by (simp add: disconnect.simps)
  from disconnect.IH[OF this] show ?case .
next
  case (user_count k now s)
  from user_count.prems obtain n where
    b: "broadcast k now (user_count_message (active_connections_count s)) None s = Some (n, s')"
    by (rule broadcast_user_countE)
  from user_count.IH[OF b refl] show ?case .
qed

lemma delete_absent: "c \<notin> fst ` set al \<Longrightarrow> AList.delete c al = al"
  by (force simp: AList.delete_eq filter_id_conv)

lemma remove_unregistered: "unregistered c s \<Longrightarrow> remove_client c s = s"
  by (simp add: unregistered_def remove_client_def delete_absent fun_upd_idem)

lemma disconnect_all_up:
  assumes "unregistered c s" and "failures None s = []" and "0 < k"
  shows "disconnect k now c s =
           Some (fold (delivered now (user_count_message (active_connections_count s)))
                   (active_connections s) s)"
proof -
  from assms(3) obtain j where k: "k = Suc j" by (cases k) auto
  show ?thesis
    unfolding k
    using assms(2) no_failures_recipients[OF assms(2)]
    by (simp add: disconnect.simps remove_unregistered[OF assms(1)] broadcast_user_count.simps
        broadcast_Suc)
qed


lemma settled_touch_again:
  assumes "settled now s"
  shows "registry (fold (delivered now m) (active_connections s) s) = registry s"
proof -
  have a: "client_activity (fold (delivered now m) (active_connections s) s) = client_activity s"
    using assms by (intro ext) (auto simp: fold_delivered_activity settled_def list_all_iff)
  have i: "connection_info (fold (delivered now m) (active_connections s) s) x = connection_info s x" for x
  proof (cases "x \<in> fst ` set (active_connections s)")
    case False
    then show ?thesis by (simp add: fold_delivered_info)
  next
    case True
    then obtain p where p: "p \<in> set (active_connections s)" "x = fst p" by auto
    with assms have "case connection_info s x of None \<Rightarrow> True | Some i \<Rightarrow> last_activity i = now"
      by (auto simp: settled_def list_all_iff)
    then show ?thesis using True
      by (cases "connection_info s x") (simp_all add: fold_delivered_info)
  qed
  from i have "connection_info (fold (delivered now m) (active_connections s) s) = connection_info s"
    by (intro ext)
  with a show ?thesis by (simp add: registry_def)
qed

text \<open>
  Deregistering the unknown id \<open>zz\<close> at instant 10 changes the activity record of the
  registered session \<open>a\<close> from 5 to 10.
\<close>

theorem C9_unknown_id_counterexample:
  "unregistered ''zz''
        \<lparr>active_connections = [(''a'', 1)],
         connection_info = [''a'' \<mapsto> \<lparr>info_client_id = ''a'', connected_at = 5, last_activity = 5,
                                       ip_address = None\<rparr>],
         board = [], client_activity = [''a'' \<mapsto> 5], wire = [], accept_fails = {}, send_fails = {}\<rparr>
   \<and> map_option (\<lambda>s'. client_activity s' ''a'')
       (disconnect (Suc 0) 10 ''zz''
        \<lparr>active_connections = [(''a'', 1)],
         connection_info = [''a'' \<mapsto> \<lparr>info_client_id = ''a'', connected_at = 5, last_activity = 5,
                                       ip_address = None\<rparr>],
         board = [], client_activity = [''a'' \<mapsto> 5], wire = [], accept_fails = {}, send_fails = {}\<rparr>)
     = Some (Some 10)
   \<and> client_activity
        \<lparr>active_connections = [(''a'', 1)],
         connection_info = [''a'' \<mapsto> \<lparr>info_client_id = ''a'', connected_at = 5, last_activity = 5,
                                       ip_address = None\<rparr>],
         board = [], client_activity = [''a'' \<mapsto> 5], wire = [], accept_fails = {}, send_fails = {}\<rparr>
        ''a'' = Some 5"
  by (simp add: unregistered_def disconnect.simps broadcast_user_count.simps broadcast_Suc
      remove_client_def recipients_def failures_def excluded_def)

lemma length_update_le: "length (AList.update c w al) \<le> Suc (length al)"
  by (induction al) auto

lemma length_update_present: "c \<in> fst ` set al \<Longrightarrow> length (AList.update c w al) = length al"
  by (induction al) auto

lemma connect_registered:
  assumes "websocket \<notin> accept_fails s" and "websocket \<notin> send_fails s"
  shows "connect k now websocket cid ip s =
     (case broadcast_user_count k now
        (s\<lparr>active_connections := AList.update cid websocket (active_connections s),
           connection_info := (connection_info s)(cid \<mapsto>
              \<lparr>info_client_id = cid, connected_at = now, last_activity = now, ip_address = ip\<rparr>),
           client_activity := (client_activity s)(cid \<mapsto> now),
           wire := wire s @ (if board s \<noteq> []
                            then [\<lparr>dest = None, sock = websocket, frame = board_state_message (board s)\<rparr>]
                            else [])\<rparr>) of
        None \<Rightarrow> None
      | Some s3 \<Rightarrow> Some (None, s3))"
  using assms by (simp add: connect_def Let_def send_board_state_def send_text_def)

text \<open>
  Claim C4, as the code has it. When a client connects while the board log is not empty
  (and its socket accepts the handshake and the send), the first frame that \<open>connect\<close>
  puts on the wire is a \<open>board_state\<close> message on the new socket, holding exactly the
  actions that were in the log when \<open>connect\<close> was called; every later frame of the same
  \<open>connect\<close> is a \<open>user_count\<close> notification. With three actions in the log the new
  client's first message is a \<open>board_state\<close> of those three actions.
\<close>

theorem C4_snapshot_first:
  assumes "board s \<noteq> []" and "websocket \<notin> accept_fails s" and "websocket \<notin> send_fails s"
    and "Suc (length (active_connections s)) < k"
  shows "\<exists>s' rest. connect k now websocket cid ip s = Some (None, s')
          \<and> wire s' = wire s @ \<lparr>dest = None, sock = websocket,
                                   frame = \<lparr>mtype = BOARD_STATE, client_id = ''server'',
                                            payload = JObj [(''actions'', JArr (board_state s))]\<rparr>\<rparr> # rest
          \<and> list_all user_count_frame rest"
proof -
  let ?s2 = "s\<lparr>active_connections := AList.update cid websocket (active_connections s),
           connection_info := (connection_info s)(cid \<mapsto>
              \<lparr>info_client_id = cid, connected_at = now, last_activity = now, ip_address = ip\<rparr>),
           client_activity := (client_activity s)(cid \<mapsto> now),
           wire := wire s @ (if board s \<noteq> []
                            then [\<lparr>dest = None, sock = websocket, frame = board_state_message (board s)\<rparr>]
                            else [])\<rparr>"
  have "length (active_connections ?s2) < k"
    using assms(4) length_update_le[of cid websocket "active_connections s"] by simp
  from enough_fuel(4)[OF this] obtain s' where b: "broadcast_user_count k now ?s2 = Some s'" by blast
  from wire_structure(4)[OF b] obtain ext where
    "wire s' = wire ?s2 @ ext" "list_all user_count_frame ext" by blast
  with assms(1) b show ?thesis
    by (simp add: connect_registered[OF assms(2,3)] board_state_message_def board_state_def)
qed

theorem C4_snapshot_first_witness:
  "\<exists>s' rest. connect 3 7 4 ''d'' None
        \<lparr>active_connections = [(''a'', 1)], connection_info = Map.empty,
         board = [JObj [(''type'', JStr ''draw'')], JObj [(''type'', JStr ''text'')],
                  JObj [(''type'', JStr ''draw'')]],
         client_activity = Map.empty, wire = [], accept_fails = {}, send_fails = {}\<rparr>
       = Some (None, s')
     \<and> wire s' = \<lparr>dest = None, sock = 4,
                    frame = \<lparr>mtype = BOARD_STATE, client_id = ''server'',
                             payload = JObj [(''actions'',
                               JArr [JObj [(''type'', JStr ''draw'')], JObj [(''type'', JStr ''text'')],
                                     JObj [(''type'', JStr ''draw'')]])]\<rparr>\<rparr> # rest
     \<and> list_all user_count_frame rest"
  using C4_snapshot_first[of
        "\<lparr>active_connections = [(''a'', 1)], connection_info = Map.empty,
         board = [JObj [(''type'', JStr ''draw'')], JObj [(''type'', JStr ''text'')],
                  JObj [(''type'', JStr ''draw'')]],
         client_activity = Map.empty, wire = [], accept_fails = {}, send_fails = {}\<rparr>"
        4 3 7 "''d''" None]
  by (simp add: board_state_def)

text \<open>
  \<open>connect\<close> sends the snapshot under the guard \<open>if self._board_state\<close>: on an empty
  board no \<open>board_state\<close> message is sent and the first frame the new client receives is
  the \<open>user_count\<close> notification.
\<close>

theorem C4_empty_board_counterexample:
  "map_option (\<lambda>r. (fst r, wire (snd r)))
     (connect (Suc 0) 7 4 ''d'' None
        \<lparr>active_connections = [], connection_info = Map.empty, board = [],
         client_activity = Map.empty, wire = [], accept_fails = {}, send_fails = {}\<rparr>)
   = Some (None, [\<lparr>dest = Some ''d'', sock = 4,
                   frame = \<lparr>mtype = USER_COUNT, client_id = ''server'',
                            payload = JObj [(''count'', JNum 1)]\<rparr>\<rparr>])"
  by (simp add: connect_def Let_def broadcast_user_count.simps broadcast_Suc recipients_def
      failures_def excluded_def user_count_message_def active_connections_count_def)


lemma kept_delivered:
  "kept now c w i s \<Longrightarrow> kept now c w i (fold (delivered now m) (recipients ex s) s)"
  by (auto simp: kept_def fold_delivered_activity fold_delivered_info)

lemma kept_remove: "c' \<noteq> c \<Longrightarrow> kept now c w i s \<Longrightarrow> kept now c w i (remove_client c' s)"
  by (auto simp: kept_def AList.delete_eq list_all_iff)

lemma kept_not_failed: "kept now c w i s \<Longrightarrow> c \<notin> set (failures ex s)"
  by (auto simp: kept_def failures_def list_all_iff)

lemma keeps:
  shows "broadcast k now m ex s = Some (n, s') \<Longrightarrow> kept now c w i s \<Longrightarrow> kept now c w i s'"
    and "handle_connection_errors k now cs s = Some s' \<Longrightarrow> c \<notin> set cs \<Longrightarrow>
           kept now c w i s \<Longrightarrow> kept now c w i s'"
    and "disconnect k now c' s = Some s' \<Longrightarrow> c' \<noteq> c \<Longrightarrow>
           kept now c w i s \<Longrightarrow> kept now c w i s'"
    and "broadcast_user_count k now s = Some s' \<Longrightarrow> kept now c w i s \<Longrightarrow> kept now c w i s'"
proof (induction k now m ex s and k now cs s and k now c' s and k now s
       arbitrary: n s' and s' and s' and s' rule: manager_induct)
  case (no_fuel now m ex s)
  then show ?case by simp
next
  case (broadcast k now m ex s)
  from broadcast.prems(1) show ?case
  proof (cases rule: broadcast_SucE)
    case 1
    with broadcast.prems(2) show ?thesis by simp
  next
    case 2
    from broadcast.IH[OF 2(1) 2(3) kept_not_failed[OF broadcast.prems(2)]
        kept_delivered[OF broadcast.prems(2)]]
    show ?thesis .
  qed
next
  case (no_errors k now s)
  then show ?case by simp
next
  case (errors k now cid rest s)
  from errors.prems(1) obtain s1 where
    d: "disconnect k now cid s = Some s1" and h: "handle_connection_errors k now rest s1 = Some s'"
    by (rule handle_ConsE)
  from errors.prems(2) have ne: "cid \<noteq> c" "c \<notin> set rest" by auto
  from errors.IH(1)[OF d ne(1) errors.prems(3)] have "kept now c w i s1" .
  from errors.IH(2)[OF d h ne(2) this] show ?case .
next
  case (disconnect k now cid s)
  from disconnect.prems(1) have "broadcast_user_count k now (remove_client cid s) = Some s'"
    by (simp add: disconnect.simps)
  from disconnect.IH[OF this kept_remove[OF disconnect.prems(2,3)]] show ?case .
next
  case (user_count k now s)
  from user_count.prems(1) obtain n where
    b: "broadcast k now (user_count_message (active_connections_count s)) None s = Some (n, s')"
    by (rule broadcast_user_countE)
  from user_count.IH[OF b user_count.prems(2)] show ?case .
qed

lemma distinct_kept:
  "broadcast_user_count k now s = Some s' \<Longrightarrow> distinct (map fst (active_connections s)) \<Longrightarrow>
     distinct (map fst (active_connections s'))"
  by (erule manager_rel(4)[where R = "\<lambda>s s'. distinct (map fst (active_connections s)) \<longrightarrow>
        distinct (map fst (active_connections s'))", rotated 4, THEN mp])
     (simp_all add: distinct_delete)

text \<open>
  Claim C2, as the code has it. \<open>connect\<close> has no check for a live id. Registering an
  id that is already live (on a socket that accepts the handshake and sends) raises
  nothing, and the registry then holds the new connection and new metadata under that
  id: the last writer wins.
\<close>

theorem C2_reconnect_replaces_session:
  assumes "cid \<in> fst ` set (active_connections s)"
    and "distinct (map fst (active_connections s))"
    and "websocket \<notin> accept_fails s" and "websocket \<notin> send_fails s"
    and "length (active_connections s) < k"
  shows "\<exists>s'. connect k now websocket cid ip s = Some (None, s')
          \<and> map_of (active_connections s') cid = Some websocket
          \<and> connection_info s' cid =
                Some \<lparr>info_client_id = cid, connected_at = now, last_activity = now, ip_address = ip\<rparr>
          \<and> client_activity s' cid = Some now"
proof -
  let ?i = "\<lparr>info_client_id = cid, connected_at = now, last_activity = now, ip_address = ip\<rparr>"
  let ?s2 = "s\<lparr>active_connections := AList.update cid websocket (active_connections s),
           connection_info := (connection_info s)(cid \<mapsto> ?i),
           client_activity := (client_activity s)(cid \<mapsto> now),
           wire := wire s @ (if board s \<noteq> []
                            then [\<lparr>dest = None, sock = websocket, frame = board_state_message (board s)\<rparr>]
                            else [])\<rparr>"
  have len: "length (active_connections ?s2) < k"
    using assms(5) length_update_present[OF assms(1), of websocket] by simp
  have dist: "distinct (map fst (active_connections ?s2))"
    using assms(2) by (simp add: distinct_update)
  have mem: "(cid, w') \<in> set (AList.update cid websocket (active_connections s)) \<longleftrightarrow> w' = websocket" for w'
    using map_of_eq_Some_iff[OF distinct_update[OF assms(2), of cid websocket], of cid w']
    by (auto simp: update_conv')
  have K: "kept now cid websocket ?i ?s2"
    using assms(4) mem by (auto simp: kept_def list_all_iff)
  from enough_fuel(4)[OF len] obtain s' where b: "broadcast_user_count k now ?s2 = Some s'" by blast
  from keeps(4)[OF b K] have K': "kept now cid websocket ?i s'" .
  from distinct_kept[OF b dist] have "distinct (map fst (active_connections s'))" .
  with K' have "map_of (active_connections s') cid = Some websocket"
    by (simp add: kept_def)
  with K' b show ?thesis
    by (simp add: connect_registered[OF assms(3,4)] kept_def)
qed

theorem C2_reconnect_replaces_session_witness:
  "\<exists>s'. connect 2 7 2 ''a'' None
        \<lparr>active_connections = [(''a'', 1)],
         connection_info = [''a'' \<mapsto> \<lparr>info_client_id = ''a'', connected_at = 5, last_activity = 5,
                                       ip_address = None\<rparr>],
         board = [], client_activity = [''a'' \<mapsto> 5], wire = [], accept_fails = {}, send_fails = {}\<rparr>
      = Some (None, s')
     \<and> map_of (active_connections s') ''a'' = Some 2
     \<and> connection_info s' ''a'' =
           Some \<lparr>info_client_id = ''a'', connected_at = 7, last_activity = 7, ip_address = None\<rparr>
     \<and> client_activity s' ''a'' = Some 7"
  using C2_reconnect_replaces_session[of "''a''"
        "\<lparr>active_connections = [(''a'', 1)],
         connection_info = [''a'' \<mapsto> \<lparr>info_client_id = ''a'', connected_at = 5, last_activity = 5,
                                       ip_address = None\<rparr>],
         board = [], client_activity = [''a'' \<mapsto> 5], wire = [], accept_fails = {}, send_fails = {}\<rparr>"
        2 2 7 None]
  by simp

text \<open>
  Session \<open>a\<close> is live on socket 1; \<open>connect\<close> of socket 2 under the same id returns
  without an exception and leaves socket 2, with metadata of the new connection,
  registered as \<open>a\<close>.
\<close>

theorem C2_duplicate_id_counterexample:
  "map_option (\<lambda>r. (fst r, active_connections (snd r), connection_info (snd r) ''a''))
     (connect (Suc 0) 7 2 ''a'' None
        \<lparr>active_connections = [(''a'', 1)],
         connection_info = [''a'' \<mapsto> \<lparr>info_client_id = ''a'', connected_at = 5, last_activity = 5,
                                       ip_address = None\<rparr>],
         board = [], client_activity = [''a'' \<mapsto> 5], wire = [], accept_fails = {}, send_fails = {}\<rparr>)
   = Some (None, [(''a'', 2)],
           Some \<lparr>info_client_id = ''a'', connected_at = 7, last_activity = 7, ip_address = None\<rparr>)"
  by (simp add: connect_def Let_def broadcast_user_count.simps broadcast_Suc recipients_def
      failures_def excluded_def)

lemma failures_remove_client:
  "failures None (remove_client c s) = filter (\<lambda>x. x \<noteq> c) (failures None s)"
  by (induction "active_connections s" arbitrary: s)
     (auto simp: failures_def AList.delete_eq excluded_def filter_map comp_def
           intro!: arg_cong[where f = "map fst"] filter_cong)


lemma failures_subset: "set (failures ex s) \<subseteq> set (failures None s)"
  by (auto simp: failures_def excluded_def)

lemma failures_delivered [simp]:
  "failures ex (fold (delivered now m) ps s) = failures ex s"
  by (simp add: failures_def)

lemma failures_none_left:
  assumes "active_connections t = filter (\<lambda>p. P p \<and> fst p \<notin> set (failures None s)) (active_connections s)"
    and "send_fails t = send_fails s"
  shows "failures ex t = []"
  using assms by (force simp: failures_def excluded_def filter_empty_conv)

lemma remaining:
  shows "broadcast k now m ex s = Some (n, s') \<Longrightarrow>
           send_fails s' = send_fails s \<and>
           active_connections s' =
             (if failures ex s = [] then active_connections s
              else filter (\<lambda>p. fst p \<notin> set (failures None s)) (active_connections s))"
    and "handle_connection_errors k now cs s = Some s' \<Longrightarrow>
           send_fails s' = send_fails s \<and>
           (if cs = [] then s' = s
            else active_connections s' =
                   filter (\<lambda>p. fst p \<notin> set cs \<and> fst p \<notin> set (failures None s))
                     (active_connections s))"
    and "disconnect k now c s = Some s' \<Longrightarrow>
           send_fails s' = send_fails s \<and>
           active_connections s' =
             filter (\<lambda>p. fst p \<noteq> c \<and> fst p \<notin> set (failures None s)) (active_connections s)"
    and "broadcast_user_count k now s = Some s' \<Longrightarrow>
           send_fails s' = send_fails s \<and>
           active_connections s' =
             filter (\<lambda>p. fst p \<notin> set (failures None s)) (active_connections s)"
proof (induction k now m ex s and k now cs s and k now c s and k now s
       arbitrary: n s' and s' and s' and s' rule: manager_induct)
  case (no_fuel now m ex s)
  then show ?case by simp
next
  case (broadcast k now m ex s)
  from broadcast.prems show ?case
  proof (cases rule: broadcast_SucE)
    case 1
    then show ?thesis by (simp add: failures_def)
  next
    case 2
    note ih = broadcast.IH[OF 2(1) 2(3)]
    show ?thesis
    proof (cases "failures ex s = []")
      case True
      with ih show ?thesis by simp
    next
      case False
      have "filter (\<lambda>p. fst p \<notin> set (failures ex s) \<and> fst p \<notin> set (failures None s))
              (active_connections s) =
            filter (\<lambda>p. fst p \<notin> set (failures None s)) (active_connections s)"
        using failures_subset[of ex s] by (auto intro: filter_cong)
      with ih False show ?thesis by simp
    qed
  qed
next
  case (no_errors k now s)
  then show ?case by simp
next
  case (errors k now cid rest s)
  from errors.prems obtain s1 where
    d: "disconnect k now cid s = Some s1" and h: "handle_connection_errors k now rest s1 = Some s'"
    by (rule handle_ConsE)
  note ih1 = errors.IH(1)[OF d]
  note ih2 = errors.IH(2)[OF d h]
  have nf: "failures None s1 = []"
    by (rule failures_none_left[of s1 "\<lambda>p. fst p \<noteq> cid" s]) (use ih1 in simp_all)
  show ?case
  proof (cases "rest = []")
    case True
    with ih1 ih2 show ?thesis by (auto intro: filter_cong)
  next
    case False
    with ih1 ih2 nf show ?thesis by (auto intro: filter_cong)
  qed
next
  case (disconnect k now cid s)
  from disconnect.prems have "broadcast_user_count k now (remove_client cid s) = Some s'"
    by (simp add: disconnect.simps)
  from disconnect.IH[OF this] show ?case
    by (auto simp: failures_remove_client AList.delete_eq intro: filter_cong)
next
  case (user_count k now s)
  from user_count.prems obtain n where
    b: "broadcast k now (user_count_message (active_connections_count s)) None s = Some (n, s')"
    by (rule broadcast_user_countE)
  from user_count.IH[OF b] show ?case
    by (auto simp: filter_id_conv)
qed


text \<open>
  Claim C8. For every registry in which no session is registered under the empty id (the
  route \<open>/ws/{client_id}\<close> admits no empty id), or for a non-empty \<open>c\<close> on any registry:
  the fan-out of \<open>broadcast(m, exclude=c)\<close> sends \<open>m\<close> only to sessions other than \<open>c\<close>.
  What follows the fan-out on the wire are the \<open>user_count\<close> notifications of the
  deregistrations of failed sessions, which go to every remaining session. So a message
  \<open>m\<close> that is not itself a \<open>user_count\<close> message is never delivered to session \<open>c\<close>.
\<close>

theorem C8_excluded_client_skipped:
  assumes "c \<noteq> [] \<or> [] \<notin> fst ` set (active_connections s)"
    and "length (active_connections s) < k"
  shows "\<exists>n s'. broadcast k now m (Some c) s = Some (n, s')
     \<and> (\<forall>d \<in> set (take n (drop (length (wire s)) (wire s'))). frame d = m \<and> dest d \<noteq> Some c)
     \<and> (\<forall>d \<in> set (drop n (drop (length (wire s)) (wire s'))). user_count_frame d)
     \<and> (mtype m \<noteq> USER_COUNT \<longrightarrow>
          (\<forall>d \<in> set (drop (length (wire s)) (wire s')). dest d = Some c \<longrightarrow> frame d \<noteq> m))"
proof -
  let ?mk = "\<lambda>p. \<lparr>dest = Some (fst p), sock = snd p, frame = m\<rparr>"
  let ?rs = "recipients (Some c) s"
  from broadcast_result[OF assms(2), of now m "Some c"] obtain s' ext where
    b: "broadcast k now m (Some c) s = Some (length ?rs, s')"
    and w: "wire s' = wire s @ map ?mk ?rs @ ext" and e: "list_all user_count_frame ext"
    by blast
  have new: "drop (length (wire s)) (wire s') = map ?mk ?rs @ ext" using w by simp
  have other: "fst p \<noteq> c" if "p \<in> set ?rs" for p
  proof (cases "c = []")
    case True
    from that have "fst p \<in> fst ` set (active_connections s)" by (auto simp: recipients_def)
    with assms(1) True show ?thesis by force
  next
    case False
    with that show ?thesis by (auto simp: recipients_def excluded_def)
  qed
  have direct: "\<forall>d \<in> set (map ?mk ?rs). frame d = m \<and> dest d \<noteq> Some c"
    using other by auto
  have nested: "\<forall>d \<in> set ext. user_count_frame d" using e by (simp add: list_all_iff)
  have 1: "\<forall>d \<in> set (take (length ?rs) (drop (length (wire s)) (wire s'))). frame d = m \<and> dest d \<noteq> Some c"
    unfolding new using direct by simp
  have 2: "\<forall>d \<in> set (drop (length ?rs) (drop (length (wire s)) (wire s'))). user_count_frame d"
    unfolding new using nested by simp
  have 3: "mtype m \<noteq> USER_COUNT \<longrightarrow>
          (\<forall>d \<in> set (drop (length (wire s)) (wire s')). dest d = Some c \<longrightarrow> frame d \<noteq> m)"
    unfolding new
  proof (intro impI ballI)
    fix d
    assume m: "mtype m \<noteq> USER_COUNT" and d: "d \<in> set (map ?mk ?rs @ ext)"
      and dc: "dest d = Some c"
    from d consider "d \<in> set (map ?mk ?rs)" | "d \<in> set ext" by auto
    then show "frame d \<noteq> m"
    proof cases
      case 1
      with direct dc show ?thesis by blast
    next
      case 2
      with nested have "user_count_frame d" by blast
      with m show ?thesis by (auto simp: user_count_frame_def)
    qed
  qed
  from b 1 2 3 show ?thesis by blast
qed

theorem C8_excluded_client_skipped_witness:
  "(\<exists>n s'. broadcast 4 7 \<lparr>mtype = CURSOR, client_id = ''a'', payload = JNull\<rparr> (Some ''a'')
        \<lparr>active_connections = [(''a'', 1), (''b'', 2), (''c'', 3)], connection_info = Map.empty,
         board = [], client_activity = Map.empty, wire = [], accept_fails = {}, send_fails = {2}\<rparr>
      = Some (n, s')
     \<and> (\<forall>d \<in> set (wire s'). dest d = Some ''a'' \<longrightarrow>
            frame d \<noteq> \<lparr>mtype = CURSOR, client_id = ''a'', payload = JNull\<rparr>))
   \<and> (\<exists>n s'. broadcast 4 7 \<lparr>mtype = CURSOR, client_id = ''a'', payload = JNull\<rparr> (Some [])
        \<lparr>active_connections = [(''a'', 1), (''b'', 2)], connection_info = Map.empty,
         board = [], client_activity = Map.empty, wire = [], accept_fails = {}, send_fails = {}\<rparr>
      = Some (n, s')
     \<and> (\<forall>d \<in> set (wire s'). dest d \<noteq> Some []))"
proof
  show "\<exists>n s'. broadcast 4 7 \<lparr>mtype = CURSOR, client_id = ''a'', payload = JNull\<rparr> (Some ''a'')
        \<lparr>active_connections = [(''a'', 1), (''b'', 2), (''c'', 3)], connection_info = Map.empty,
         board = [], client_activity = Map.empty, wire = [], accept_fails = {}, send_fails = {2}\<rparr>
      = Some (n, s')
     \<and> (\<forall>d \<in> set (wire s'). dest d = Some ''a'' \<longrightarrow>
            frame d \<noteq> \<lparr>mtype = CURSOR, client_id = ''a'', payload = JNull\<rparr>)"
    using C8_excluded_client_skipped[of "''a''"
        "\<lparr>active_connections = [(''a'', 1), (''b'', 2), (''c'', 3)], connection_info = Map.empty,
         board = [], client_activity = Map.empty, wire = [], accept_fails = {}, send_fails = {2}\<rparr>"
        4 7 "\<lparr>mtype = CURSOR, client_id = ''a'', payload = JNull\<rparr>"]
    by simp blast
  show "\<exists>n s'. broadcast 4 7 \<lparr>mtype = CURSOR, client_id = ''a'', payload = JNull\<rparr> (Some [])
        \<lparr>active_connections = [(''a'', 1), (''b'', 2)], connection_info = Map.empty,
         board = [], client_activity = Map.empty, wire = [], accept_fails = {}, send_fails = {}\<rparr>
      = Some (n, s')
     \<and> (\<forall>d \<in> set (wire s'). dest d \<noteq> Some [])"
    by (simp add: numeral_eq_Suc broadcast_Suc recipients_def failures_def excluded_def)
qed


text \<open>
  Claim C10. \<open>disconnect\<close> returns for every client id, registered or not. The sessions
  registered afterwards are exactly those of the initial registry other than \<open>c\<close> whose
  id has no failing socket. The last thing \<open>disconnect\<close> puts on the wire is a
  \<open>user_count\<close> message, with client id \<open>server\<close> and the number of these sessions,
  delivered to each of them in registry order; whatever it sent before that is
  \<open>user_count\<close> notifications too, and nothing at all when no socket other than those of
  \<open>c\<close> fails. Deregistering an unknown id is therefore visible to every connected session
  as a \<open>user_count\<close> frame.
\<close>

theorem C10_disconnect_ends_with_user_count:
  assumes "length (active_connections s) < k"
  shows "\<exists>s' pre. disconnect k now c s = Some s'
          \<and> active_connections s' =
                filter (\<lambda>p. fst p \<noteq> c \<and> fst p \<notin> set (failures None s)) (active_connections s)
          \<and> wire s' = wire s @ pre @
               map (\<lambda>p. \<lparr>dest = Some (fst p), sock = snd p,
                          frame = \<lparr>mtype = USER_COUNT, client_id = ''server'',
                                   payload = JObj [(''count'', JNum (real (length (active_connections s'))))]\<rparr>\<rparr>)
                   (active_connections s')
          \<and> list_all user_count_frame pre
          \<and> (set (failures None s) \<subseteq> {c} \<longrightarrow> pre = [])"
proof -
  let ?final = "\<lambda>s'. map (\<lambda>p. \<lparr>dest = Some (fst p), sock = snd p,
                          frame = \<lparr>mtype = USER_COUNT, client_id = ''server'',
                                   payload = JObj [(''count'', JNum (real (length (active_connections s'))))]\<rparr>\<rparr>)
                   (active_connections s')"
  have "length (AList.delete c (active_connections s)) < k"
    using assms length_delete_le[of c "active_connections s"] by simp
  from enough_fuel(3)[OF this] obtain s' where d: "disconnect k now c s = Some s'" by blast
  have fin: "user_count_deliveries s' = ?final s'"
    by (simp add: user_count_deliveries_def user_count_message_def active_connections_count_def)
  from user_count_ends(3)[OF d] obtain pre where w: "wire s' = wire s @ pre @ ?final s'"
    unfolding fin by blast
  from wire_structure(3)[OF d] obtain ext where
    e: "wire s' = wire s @ ext" "list_all user_count_frame ext" by blast
  from w e have "pre @ ?final s' = ext" by simp
  with e(2) have p: "list_all user_count_frame pre" by (auto simp: list_all_iff)
  have a: "active_connections s' =
             filter (\<lambda>p. fst p \<noteq> c \<and> fst p \<notin> set (failures None s)) (active_connections s)"
    using remaining(3)[OF d] by simp
  have q: "pre = []" if h: "set (failures None s) \<subseteq> {c}"
  proof -
    from h have f: "failures None (remove_client c s) = []"
      by (auto simp: failures_remove_client filter_empty_conv)
    from d have "broadcast_user_count k now (remove_client c s) = Some s'"
      by (simp add: disconnect.simps)
    then obtain n where
      "broadcast k now (user_count_message (active_connections_count (remove_client c s))) None
         (remove_client c s) = Some (n, s')"
      by (rule broadcast_user_countE)
    from broadcast_no_failures[OF this f] no_failures_recipients[OF f]
    have "wire s' = wire s @ ?final s'"
      by (simp add: user_count_message_def active_connections_count_def)
    with w show ?thesis by simp
  qed
  from d a w p q show ?thesis by blast
qed

theorem C10_disconnect_ends_with_user_count_witness:
  "(\<exists>s'. disconnect 2 7 ''zz''
        \<lparr>active_connections = [(''a'', 1)], connection_info = Map.empty,
         board = [], client_activity = Map.empty, wire = [], accept_fails = {}, send_fails = {}\<rparr>
       = Some s'
     \<and> active_connections s' = [(''a'', 1)]
     \<and> wire s' = [\<lparr>dest = Some ''a'', sock = 1,
                     frame = \<lparr>mtype = USER_COUNT, client_id = ''server'',
                              payload = JObj [(''count'', JNum 1)]\<rparr>\<rparr>])
   \<and> (\<exists>s' pre. disconnect 3 7 ''zz''
        \<lparr>active_connections = [(''a'', 1), (''b'', 2)], connection_info = Map.empty,
         board = [], client_activity = Map.empty, wire = [], accept_fails = {}, send_fails = {2}\<rparr>
       = Some s'
     \<and> active_connections s' = [(''a'', 1)]
     \<and> wire s' = pre @ [\<lparr>dest = Some ''a'', sock = 1,
                     frame = \<lparr>mtype = USER_COUNT, client_id = ''server'',
                              payload = JObj [(''count'', JNum 1)]\<rparr>\<rparr>]
     \<and> list_all user_count_frame pre)"
  using C10_disconnect_ends_with_user_count[of
        "\<lparr>active_connections = [(''a'', 1)], connection_info = Map.empty,
         board = [], client_activity = Map.empty, wire = [], accept_fails = {}, send_fails = {}\<rparr>"
        2 7 "''zz''"]
    C10_disconnect_ends_with_user_count[of
        "\<lparr>active_connections = [(''a'', 1), (''b'', 2)], connection_info = Map.empty,
         board = [], client_activity = Map.empty, wire = [], accept_fails = {}, send_fails = {2}\<rparr>"
        3 7 "''zz''"]
  by (auto simp: failures_def excluded_def)


text \<open>
  Claim C9, as the code has it. \<open>disconnect\<close> returns for every id, and a second
  \<open>disconnect\<close> of the same id, at any instant \<open>now2\<close>, removes nothing more: the active
  connections and the board are as the first call left them, and the metadata and
  activity records keep their keys, connection times and addresses. The second call is
  not a no-op on the records, though: like every \<open>disconnect\<close> it ends with a
  \<open>user_count\<close> broadcast, which sets the last-activity time of every registered session
  to the time of the send, so the registry after the second call equals the registry
  after the first only where no time has passed between them. In the same way, for an id
  that is in none of the tables, \<open>disconnect\<close> leaves registered exactly the sessions
  whose id has no failing socket, all of them when every socket accepts a send, and
  refreshes their last-activity time. (The source reads the clock at every successful
  send; the model reads it once for each call.)
\<close>

theorem C9_disconnect_idempotent:
  assumes "length (active_connections s) < k"
  shows "\<exists>s1 s2. disconnect k now c s = Some s1 \<and> disconnect k now2 c s1 = Some s2
      \<and> active_connections s2 = active_connections s1
      \<and> connection_info s2 =
             (\<lambda>x. if x \<in> fst ` set (active_connections s1)
                  then map_option (\<lambda>i. i\<lparr>last_activity := now2\<rparr>) (connection_info s1 x)
                  else connection_info s1 x)
      \<and> client_activity s2 =
             (\<lambda>x. if x \<in> fst ` set (active_connections s1) then Some now2 else client_activity s1 x)
      \<and> board s2 = board s1
      \<and> (now2 = now \<longrightarrow> registry s2 = registry s1)
      \<and> (unregistered c s \<longrightarrow>
           active_connections s1 =
             filter (\<lambda>p. fst p \<notin> set (failures None s)) (active_connections s))
      \<and> (unregistered c s \<and> list_all (\<lambda>p. snd p \<notin> send_fails s) (active_connections s) \<longrightarrow>
           active_connections s1 = active_connections s
         \<and> connection_info s1 =
             (\<lambda>x. if x \<in> fst ` set (active_connections s)
                  then map_option (\<lambda>i. i\<lparr>last_activity := now\<rparr>) (connection_info s x)
                  else connection_info s x)
         \<and> client_activity s1 =
             (\<lambda>x. if x \<in> fst ` set (active_connections s) then Some now else client_activity s x)
         \<and> board s1 = board s)"
proof -
  have k: "0 < k" using assms by simp
  have "length (AList.delete c (active_connections s)) < k"
    using assms length_delete_le[of c "active_connections s"] by simp
  from enough_fuel(3)[OF this] obtain s1 where d1: "disconnect k now c s = Some s1" by blast
  have st: "settled now s1" by (rule settles(3)[OF d1])
  have un: "unregistered c s1" by (rule disconnect_unregisters[OF d1])
  let ?s2 = "fold (delivered now2 (user_count_message (active_connections_count s1)))
               (active_connections s1) s1"
  have d2: "disconnect k now2 c s1 = Some ?s2"
    by (rule disconnect_all_up[OF un settled_no_failures[OF st] k])
  have a2: "active_connections ?s2 = active_connections s1" "board ?s2 = board s1" by simp_all
  have i2: "connection_info ?s2 =
             (\<lambda>x. if x \<in> fst ` set (active_connections s1)
                  then map_option (\<lambda>i. i\<lparr>last_activity := now2\<rparr>) (connection_info s1 x)
                  else connection_info s1 x)"
    by (intro ext) (simp add: fold_delivered_info)
  have c2: "client_activity ?s2 =
             (\<lambda>x. if x \<in> fst ` set (active_connections s1) then Some now2 else client_activity s1 x)"
    by (intro ext) (simp add: fold_delivered_activity)
  have r: "registry ?s2 = registry s1" if "now2 = now"
    using settled_touch_again[OF st] that by simp
  have g: "active_connections s1 =
             filter (\<lambda>p. fst p \<notin> set (failures None s)) (active_connections s)"
    if h: "unregistered c s"
  proof -
    from h have ne: "fst p \<noteq> c" if "p \<in> set (active_connections s)" for p
      using that by (auto simp: unregistered_def)
    have "filter (\<lambda>p. fst p \<noteq> c \<and> fst p \<notin> set (failures None s)) (active_connections s) =
               filter (\<lambda>p. fst p \<notin> set (failures None s)) (active_connections s)"
      by (rule filter_cong[OF refl]) (use ne in blast)
    with remaining(3)[OF d1] show ?thesis by simp
  qed
  have u: "active_connections s1 = active_connections s
         \<and> connection_info s1 =
             (\<lambda>x. if x \<in> fst ` set (active_connections s)
                  then map_option (\<lambda>i. i\<lparr>last_activity := now\<rparr>) (connection_info s x)
                  else connection_info s x)
         \<and> client_activity s1 =
             (\<lambda>x. if x \<in> fst ` set (active_connections s) then Some now else client_activity s x)
         \<and> board s1 = board s"
    if h: "unregistered c s" "list_all (\<lambda>p. snd p \<notin> send_fails s) (active_connections s)"
  proof -
    from h(2) have f: "failures None s = []"
      by (auto simp: failures_def list_all_iff filter_empty_conv)
    from disconnect_all_up[OF h(1) f k, of now] d1
    have "s1 = fold (delivered now (user_count_message (active_connections_count s)))
                 (active_connections s) s" by simp
    then show ?thesis
      by (auto simp: fun_eq_iff fold_delivered_activity fold_delivered_info)
  qed
  from d1 d2 a2 i2 c2 r g u show ?thesis by blast
qed

theorem C9_disconnect_idempotent_witness:
  "\<exists>s1 s2. disconnect 2 10 ''zz''
        \<lparr>active_connections = [(''a'', 1)],
         connection_info = [''a'' \<mapsto> \<lparr>info_client_id = ''a'', connected_at = 5, last_activity = 5,
                                       ip_address = None\<rparr>],
         board = [], client_activity = [''a'' \<mapsto> 5], wire = [], accept_fails = {}, send_fails = {}\<rparr>
       = Some s1
     \<and> disconnect 2 11 ''zz'' s1 = Some s2
     \<and> active_connections s1 = [(''a'', 1)]
     \<and> connection_info s1 ''a'' =
           Some \<lparr>info_client_id = ''a'', connected_at = 5, last_activity = 10, ip_address = None\<rparr>
     \<and> client_activity s1 ''a'' = Some 10
     \<and> active_connections s2 = [(''a'', 1)]
     \<and> connection_info s2 ''a'' =
           Some \<lparr>info_client_id = ''a'', connected_at = 5, last_activity = 11, ip_address = None\<rparr>
     \<and> client_activity s2 ''a'' = Some 11"
  using C9_disconnect_idempotent[of
        "\<lparr>active_connections = [(''a'', 1)],
         connection_info = [''a'' \<mapsto> \<lparr>info_client_id = ''a'', connected_at = 5, last_activity = 5,
                                       ip_address = None\<rparr>],
         board = [], client_activity = [''a'' \<mapsto> 5], wire = [], accept_fails = {}, send_fails = {}\<rparr>"
        2 10 "''zz''" 11]
  by (auto simp: unregistered_def)

end
